theory Spec2Isabelle
  imports Main
begin

section \<open>Legacy migration of \<open>cogs/utils/database_migration.py\<close>\<close>

text \<open>
  The module copies a legacy SQLite store into the PostgreSQL schema it declares.
  Both stores are modelled as records of tables, a table being the list of its rows in
  insertion order. Every SQL statement of the importers is a function on the target
  store; the constraints it can violate are the ones declared in \<open>tables\<close>, and
  the \<open>BEFORE UPDATE\<close> triggers of \<open>triggers\<close> are part of the statements that
  update. An exception is a value \<open>Inl (error, store)\<close>: the importers run outside any
  transaction, so the store reached when the exception is raised is what remains.

  Timestamps are whole seconds since the Unix epoch (\<open>int\<close>), the process is taken to
  run in UTC, and serial identifiers are unbounded integers. Legacy columns that feed a
  \<open>NOT NULL\<close> column are modelled as non-null; SQLite reals and blobs are not modelled.
\<close>

subsection \<open>Errors and external functions\<close>

datatype error =
    DataError                  \<comment> \<open>asyncpg cannot encode an argument for its column type\<close>
  | UniqueViolationError       \<comment> \<open>a primary key or unique constraint without conflict clause\<close>
  | ForeignKeyViolationError
  | NotNullViolationError
  | TimestampError             \<comment> \<open>\<open>utcfromtimestamp\<close> outside the years 1 to 9999\<close>
  | TypeError
  | ValueError
  | JSONDecodeError

datatype json =
    JNull
  | JBool bool
  | JInt int
  | JString string
  | JArray "json list"
  | JObject "(string \<times> json) list"

text \<open>A value read from a dynamically typed SQLite column.\<close>

datatype legacy_value = LNull | LInt int | LText string

text \<open>
  What the module takes from outside: the clock of the target store (\<open>now_at k\<close> is the
  value of \<open>now()\<close> in the \<open>k\<close>-th statement that evaluates it), \<open>json.loads\<close> on a
  string (\<open>None\<close> when it raises \<open>JSONDecodeError\<close>) and the built-in \<open>int\<close> on a
  string (\<open>None\<close> when it raises \<open>ValueError\<close>).
\<close>

record externals =
  now_at :: "nat \<Rightarrow> int"
  json_loads :: "string \<Rightarrow> json option"
  int_of_str :: "string \<Rightarrow> int option"

definition in_int16 :: "int \<Rightarrow> bool" where
  "in_int16 x = (- 32768 \<le> x \<and> x \<le> 32767)"

definition in_int64 :: "int \<Rightarrow> bool" where
  "in_int64 x = (- 9223372036854775808 \<le> x \<and> x \<le> 9223372036854775807)"

definition opt_in_int16 :: "int option \<Rightarrow> bool" where
  "opt_in_int16 x = (case x of None \<Rightarrow> True | Some v \<Rightarrow> in_int16 v)"

text \<open>\<open>datetime.datetime.utcfromtimestamp\<close>: the years 1 to 9999.\<close>

definition utcfromtimestamp :: "int \<Rightarrow> error + int" where
  "utcfromtimestamp t =
     (if - 62135596800 \<le> t \<and> t \<le> 253402300799 then Inr t else Inl TimestampError)"

text \<open>Python's \<open>bool\<close> and \<open>int\<close> on a legacy value, \<open>json.loads\<close> on one.\<close>

fun py_bool :: "legacy_value \<Rightarrow> bool" where
  "py_bool LNull = False"
| "py_bool (LInt i) = (i \<noteq> 0)"
| "py_bool (LText s) = (s \<noteq> [])"

fun py_int :: "externals \<Rightarrow> legacy_value \<Rightarrow> error + int" where
  "py_int ext LNull = Inl TypeError"
| "py_int ext (LInt i) = Inr i"
| "py_int ext (LText s) = (case int_of_str ext s of None \<Rightarrow> Inl ValueError | Some i \<Rightarrow> Inr i)"

fun py_json_loads :: "externals \<Rightarrow> legacy_value \<Rightarrow> error + json" where
  "py_json_loads ext (LText s) =
     (case json_loads ext s of None \<Rightarrow> Inl JSONDecodeError | Some j \<Rightarrow> Inr j)"
| "py_json_loads ext v = Inl TypeError"

text \<open>
  \<open>json.dumps\<close> of a legacy value, read back by the \<open>jsonb\<close> column that receives the
  text: the JSON value itself.
\<close>

fun json_dumps_value :: "legacy_value \<Rightarrow> json" where
  "json_dumps_value LNull = JNull"
| "json_dumps_value (LInt i) = JInt i"
| "json_dumps_value (LText s) = JString s"

subsection \<open>The legacy store\<close>

record legacy_char =
  lc_id :: int
  lc_user_id :: int
  lc_name :: string
  lc_level :: "int option"
  lc_vocation :: "string option"
  lc_world :: "string option"
  lc_guild :: "string option"

record legacy_levelup =
  ll_char_id :: int
  ll_level :: "int option"
  ll_date :: int

record legacy_death =
  ld_char_id :: int
  ld_level :: "int option"
  ld_date :: int
  ld_killer :: string
  ld_byplayer :: int

record legacy_property =
  lp_server_id :: legacy_value
  lp_name :: string
  lp_value :: legacy_value

record legacy_event =
  le_id :: int
  le_creator :: int
  le_name :: string
  le_start :: int
  le_active :: legacy_value
  le_status :: int
  le_description :: "string option"
  le_server :: int
  le_joinable :: legacy_value
  le_slots :: int

record legacy =
  chars :: "legacy_char list"
  char_levelups :: "legacy_levelup list"
  char_deaths :: "legacy_death list"
  server_properties :: "legacy_property list"
  events :: "legacy_event list"
  event_subscribers :: "(int \<times> int) list"       \<comment> \<open>\<open>(event_id, user_id)\<close>\<close>
  event_participants :: "(int \<times> int) list"      \<comment> \<open>\<open>(event_id, char_id)\<close>\<close>
  auto_roles :: "(int \<times> int \<times> string) list"    \<comment> \<open>\<open>(server_id, role_id, guild)\<close>\<close>
  joinable_roles :: "(int \<times> int) list"          \<comment> \<open>\<open>(server_id, role_id)\<close>\<close>

subsection \<open>The target store\<close>

record character_row =
  ch_id :: int
  ch_user_id :: int
  ch_name :: string
  ch_level :: "int option"
  ch_world :: "string option"
  ch_vocation :: "string option"
  ch_guild :: "string option"
  ch_modified :: "int option"
  ch_created :: "int option"

record death_row =
  dr_id :: int
  dr_character_id :: int
  dr_level :: "int option"
  dr_date :: "int option"

record killer_row =
  kr_death_id :: int
  kr_position :: int
  kr_name :: string
  kr_player :: "bool option"

record levelup_row =
  lr_id :: int
  lr_character_id :: int
  lr_level :: "int option"
  lr_date :: "int option"

record event_row =
  ev_id :: int
  ev_user_id :: int
  ev_server_id :: int
  ev_name :: string
  ev_description :: "string option"
  ev_start :: int
  ev_active :: bool
  ev_reminder :: int
  ev_joinable :: bool
  ev_slots :: int
  ev_modified :: int
  ev_created :: int

text \<open>
  The tables the importers touch. A \<open>serial\<close> column draws from a sequence, kept as its
  last value; \<open>now_calls\<close> counts the statements that have evaluated \<open>now()\<close>.
\<close>

record db =
  character :: "character_row list"
  character_id_seq :: int
  character_death :: "death_row list"
  character_death_id_seq :: int
  character_death_killer :: "killer_row list"
  character_levelup :: "levelup_row list"
  character_levelup_id_seq :: int
  event :: "event_row list"
  event_id_seq :: int
  event_participant :: "(int \<times> int) list"       \<comment> \<open>\<open>(event_id, character_id)\<close>\<close>
  event_subscriber :: "(int \<times> int) list"        \<comment> \<open>\<open>(event_id, user_id)\<close>\<close>
  server_property :: "(int \<times> string \<times> json) list"
  server_prefixes :: "(int \<times> string list) list"
  role_auto :: "(int \<times> int \<times> string) list"
  role_joinable :: "(int \<times> int) list"
  now_calls :: nat

type_synonym 'a result = "(error \<times> db) + 'a"

subsection \<open>\<open>import_characters\<close>\<close>

text \<open>
  \<open>INSERT INTO "character" (user_id, name, level, vocation, world, guild) VALUES (...)
  ON CONFLICT(name) DO UPDATE SET name=EXCLUDED.name RETURNING id\<close>.
  The row to insert is built first, so the sequence and the clock advance on either
  path. On a conflict the statement is an update of the conflicting row, which fires
  \<open>update_character_modified\<close>: \<open>NEW.modified = now()\<close>.
\<close>

definition upsert_character ::
  "externals \<Rightarrow> db \<Rightarrow> legacy_char \<Rightarrow> (db \<times> int) result" where
  "upsert_character ext conn row =
     (if \<not> (in_int64 (lc_user_id row) \<and> opt_in_int16 (lc_level row)) then Inl (DataError, conn)
      else
        let new_id = character_id_seq conn + 1;
            now = now_at ext (now_calls conn);
            conn1 = conn\<lparr>character_id_seq := new_id, now_calls := Suc (now_calls conn)\<rparr>
        in case find (\<lambda>r. ch_name r = lc_name row) (character conn) of
             Some old \<Rightarrow>
               Inr (conn1\<lparr>character :=
                           map (\<lambda>r. if ch_name r = lc_name row
                                     then r\<lparr>ch_name := lc_name row, ch_modified := Some now\<rparr>
                                     else r) (character conn)\<rparr>,
                    ch_id old)
           | None \<Rightarrow>
               if new_id \<in> ch_id ` set (character conn) then Inl (UniqueViolationError, conn1)
               else Inr (conn1\<lparr>character := character conn @
                            [\<lparr>ch_id = new_id, ch_user_id = lc_user_id row, ch_name = lc_name row,
                              ch_level = lc_level row, ch_world = lc_world row,
                              ch_vocation = lc_vocation row, ch_guild = lc_guild row,
                              ch_modified = Some now, ch_created = Some now\<rparr>]\<rparr>,
                         new_id))"

text \<open>
  \<open>SELECT ?, level, date FROM char_levelups WHERE char_id = ? ORDER BY date ASC\<close> and
  \<open>SELECT ?, level, date, killer, byplayer FROM char_deaths WHERE char_id = ?\<close>: the
  legacy rows of \<open>old_id\<close>, the first column replaced by the new identifier.
\<close>

definition select_levelups :: "legacy \<Rightarrow> int \<Rightarrow> int \<Rightarrow> legacy_levelup list" where
  "select_levelups c char_id old_id =
     map (\<lambda>l. l\<lparr>ll_char_id := char_id\<rparr>)
       (sort_key ll_date (filter (\<lambda>l. ll_char_id l = old_id) (char_levelups c)))"

definition select_deaths :: "legacy \<Rightarrow> int \<Rightarrow> int \<Rightarrow> legacy_death list" where
  "select_deaths c char_id old_id =
     map (\<lambda>d. d\<lparr>ld_char_id := char_id\<rparr>) (filter (\<lambda>d. ld_char_id d = old_id) (char_deaths c))"

text \<open>The first loop: one upsert per legacy character, collecting its level-ups and deaths.\<close>

fun migrate_characters ::
  "externals \<Rightarrow> legacy \<Rightarrow> db \<Rightarrow> legacy_levelup list \<Rightarrow> legacy_death list \<Rightarrow> legacy_char list
     \<Rightarrow> (db \<times> legacy_levelup list \<times> legacy_death list) result" where
  "migrate_characters ext c conn levelups deaths [] = Inr (conn, levelups, deaths)"
| "migrate_characters ext c conn levelups deaths (row # rows) =
     (case upsert_character ext conn row of
        Inl e \<Rightarrow> Inl e
      | Inr (conn', char_id) \<Rightarrow>
          migrate_characters ext c conn'
            (levelups @ select_levelups c char_id (lc_id row))
            (deaths @ select_deaths c char_id (lc_id row)) rows)"

text \<open>
  One death: skipped when \<open>SELECT id FROM character_death WHERE date = $1 AND
  character_id = $2\<close> returns a row, else inserted, followed by its killer row.
\<close>

definition death_exists :: "db \<Rightarrow> int \<Rightarrow> int \<Rightarrow> bool" where
  "death_exists conn date char_id =
     (\<exists>r \<in> set (character_death conn). dr_date r = Some date \<and> dr_character_id r = char_id)"

definition insert_death :: "db \<Rightarrow> int \<Rightarrow> int option \<Rightarrow> int \<Rightarrow> (db \<times> int) result" where
  "insert_death conn char_id level date =
     (if \<not> opt_in_int16 level then Inl (DataError, conn)
      else
        let new_id = character_death_id_seq conn + 1;
            conn1 = conn\<lparr>character_death_id_seq := new_id\<rparr>
        in if new_id \<in> dr_id ` set (character_death conn) \<or> death_exists conn date char_id
           then Inl (UniqueViolationError, conn1)
           else if char_id \<notin> ch_id ` set (character conn)
           then Inl (ForeignKeyViolationError, conn1)
           else Inr (conn1\<lparr>character_death := character_death conn @
                        [\<lparr>dr_id = new_id, dr_character_id = char_id, dr_level = level,
                          dr_date = Some date\<rparr>]\<rparr>,
                     new_id))"

definition insert_death_killer :: "db \<Rightarrow> int \<Rightarrow> string \<Rightarrow> bool \<Rightarrow> db result" where
  "insert_death_killer conn death_id name player =
     (if death_id \<notin> dr_id ` set (character_death conn) then Inl (ForeignKeyViolationError, conn)
      else Inr (conn\<lparr>character_death_killer := character_death_killer conn @
                   [\<lparr>kr_death_id = death_id, kr_position = 0, kr_name = name,
                     kr_player = Some player\<rparr>]\<rparr>))"

definition migrate_death :: "db \<Rightarrow> nat \<Rightarrow> legacy_death \<Rightarrow> (db \<times> nat) result" where
  "migrate_death conn skipped_deaths death =
     (let byplayer = (ld_byplayer death = 1) in
      case utcfromtimestamp (ld_date death) of
        Inl e \<Rightarrow> Inl (e, conn)
      | Inr date \<Rightarrow>
          if death_exists conn date (ld_char_id death) then Inr (conn, skipped_deaths + 1)
          else (case insert_death conn (ld_char_id death) (ld_level death) date of
                  Inl e \<Rightarrow> Inl e
                | Inr (conn1, death_id) \<Rightarrow>
                    (case insert_death_killer conn1 death_id (ld_killer death) byplayer of
                       Inl e \<Rightarrow> Inl e
                     | Inr conn2 \<Rightarrow> Inr (conn2, skipped_deaths))))"

fun migrate_deaths :: "db \<Rightarrow> nat \<Rightarrow> legacy_death list \<Rightarrow> (db \<times> nat) result" where
  "migrate_deaths conn skipped_deaths [] = Inr (conn, skipped_deaths)"
| "migrate_deaths conn skipped_deaths (death # deaths) =
     (case migrate_death conn skipped_deaths death of
        Inl e \<Rightarrow> Inl e
      | Inr (conn', skipped') \<Rightarrow> migrate_deaths conn' skipped' deaths)"

text \<open>
  One level-up: skipped when \<open>SELECT id FROM character_levelup WHERE character_id = $1
  AND GREATEST($2-date,date-$2) <= interval '15' second\<close> returns a row. A stored row
  whose date is null never satisfies the comparison.
\<close>

definition levelup_exists :: "db \<Rightarrow> int \<Rightarrow> int \<Rightarrow> bool" where
  "levelup_exists conn char_id date =
     (\<exists>r \<in> set (character_levelup conn).
        lr_character_id r = char_id \<and>
        (case lr_date r of None \<Rightarrow> False | Some d \<Rightarrow> max (date - d) (d - date) \<le> 15))"

definition insert_levelup :: "db \<Rightarrow> int \<Rightarrow> int option \<Rightarrow> int \<Rightarrow> db result" where
  "insert_levelup conn char_id level date =
     (if \<not> opt_in_int16 level then Inl (DataError, conn)
      else
        let new_id = character_levelup_id_seq conn + 1;
            conn1 = conn\<lparr>character_levelup_id_seq := new_id\<rparr>
        in if new_id \<in> lr_id ` set (character_levelup conn) then Inl (UniqueViolationError, conn1)
           else if char_id \<notin> ch_id ` set (character conn)
           then Inl (ForeignKeyViolationError, conn1)
           else Inr (conn1\<lparr>character_levelup := character_levelup conn @
                        [\<lparr>lr_id = new_id, lr_character_id = char_id, lr_level = level,
                          lr_date = Some date\<rparr>]\<rparr>))"

definition migrate_levelup :: "db \<Rightarrow> nat \<Rightarrow> legacy_levelup \<Rightarrow> (db \<times> nat) result" where
  "migrate_levelup conn skipped_levelups levelup =
     (case utcfromtimestamp (ll_date levelup) of
        Inl e \<Rightarrow> Inl (e, conn)
      | Inr date \<Rightarrow>
          if levelup_exists conn (ll_char_id levelup) date then Inr (conn, skipped_levelups + 1)
          else (case insert_levelup conn (ll_char_id levelup) (ll_level levelup) date of
                  Inl e \<Rightarrow> Inl e
                | Inr conn1 \<Rightarrow> Inr (conn1, skipped_levelups)))"

fun migrate_levelups :: "db \<Rightarrow> nat \<Rightarrow> legacy_levelup list \<Rightarrow> (db \<times> nat) result" where
  "migrate_levelups conn skipped_levelups [] = Inr (conn, skipped_levelups)"
| "migrate_levelups conn skipped_levelups (levelup # levelups) =
     (case migrate_levelup conn skipped_levelups levelup of
        Inl e \<Rightarrow> Inl e
      | Inr (conn', skipped') \<Rightarrow> migrate_levelups conn' skipped' levelups)"

text \<open>
  \<open>import_characters\<close>: the characters in ascending legacy id, then the collected deaths
  and the collected level-ups, each sorted by date with Python's stable \<open>sorted\<close>. The
  result carries the two counters the function prints.
\<close>

definition import_characters :: "externals \<Rightarrow> db \<Rightarrow> legacy \<Rightarrow> (db \<times> nat \<times> nat) result" where
  "import_characters ext conn c =
     (case migrate_characters ext c conn [] [] (sort_key lc_id (chars c)) of
        Inl e \<Rightarrow> Inl e
      | Inr (conn1, levelups, deaths) \<Rightarrow>
          (case migrate_deaths conn1 0 (sort_key ld_date deaths) of
             Inl e \<Rightarrow> Inl e
           | Inr (conn2, skipped_deaths) \<Rightarrow>
               (case migrate_levelups conn2 0 (sort_key ll_date levelups) of
                  Inl e \<Rightarrow> Inl e
                | Inr (conn3, skipped_levelups) \<Rightarrow>
                    Inr (conn3, skipped_deaths, skipped_levelups))))"

subsection \<open>\<open>import_server_properties\<close>\<close>

text \<open>
  The \<open>text[]\<close> argument of \<open>server_prefixes\<close>: a JSON array of strings is the list of
  its strings and JSON \<open>null\<close> is SQL null, which the column refuses. Any other value is
  taken as one asyncpg cannot encode.
\<close>

fun json_strings :: "json list \<Rightarrow> string list option" where
  "json_strings [] = Some []"
| "json_strings (JString s # js) = map_option ((#) s) (json_strings js)"
| "json_strings (j # js) = None"

fun encode_text_array :: "json \<Rightarrow> error + string list" where
  "encode_text_array (JArray js) =
     (case json_strings js of None \<Rightarrow> Inl DataError | Some ss \<Rightarrow> Inr ss)"
| "encode_text_array JNull = Inl NotNullViolationError"
| "encode_text_array j = Inl DataError"

text \<open>
  \<open>INSERT INTO server_prefixes(server_id, prefixes) VALUES($1, $2) ON CONFLICT DO
  NOTHING\<close>; the primary key is \<open>server_id\<close>.
\<close>

definition insert_server_prefixes :: "db \<Rightarrow> int \<Rightarrow> json \<Rightarrow> db result" where
  "insert_server_prefixes conn server prefixes =
     (if \<not> in_int64 server then Inl (DataError, conn)
      else case encode_text_array prefixes of
             Inl e \<Rightarrow> Inl (e, conn)
           | Inr ss \<Rightarrow>
               if server \<in> fst ` set (server_prefixes conn) then Inr conn
               else Inr (conn\<lparr>server_prefixes := server_prefixes conn @ [(server, ss)]\<rparr>))"

text \<open>
  \<open>INSERT INTO server_property(server_id, key, value) VALUES($1, $2, $3)
  ON CONFLICT(server_id, key) DO NOTHING\<close>.
\<close>

definition insert_server_property :: "db \<Rightarrow> int \<Rightarrow> string \<Rightarrow> json \<Rightarrow> db result" where
  "insert_server_property conn server key v =
     (if \<not> in_int64 server then Inl (DataError, conn)
      else if (server, key) \<in> (\<lambda>(s, k, _). (s, k)) ` set (server_property conn) then Inr conn
      else Inr (conn\<lparr>server_property := server_property conn @ [(server, key, v)]\<rparr>))"

definition migrate_server_property :: "externals \<Rightarrow> db \<Rightarrow> legacy_property \<Rightarrow> db result" where
  "migrate_server_property ext conn row =
     (case py_int ext (lp_server_id row) of
        Inl e \<Rightarrow> Inl (e, conn)
      | Inr server \<Rightarrow>
          if lp_name row = ''prefixes'' then
            (case py_json_loads ext (lp_value row) of
               Inl e \<Rightarrow> Inl (e, conn)
             | Inr prefixes \<Rightarrow> insert_server_prefixes conn server prefixes)
          else if lp_name row \<in> set [''times''] then
            (case py_json_loads ext (lp_value row) of
               Inl e \<Rightarrow> Inl (e, conn)
             | Inr v \<Rightarrow> insert_server_property conn server (lp_name row) v)
          else if lp_name row = ''commandsonly'' then
            insert_server_property conn server (lp_name row) (JBool (py_bool (lp_value row)))
          else
            insert_server_property conn server (lp_name row) (json_dumps_value (lp_value row)))"

fun migrate_server_properties :: "externals \<Rightarrow> db \<Rightarrow> legacy_property list \<Rightarrow> db result" where
  "migrate_server_properties ext conn [] = Inr conn"
| "migrate_server_properties ext conn (row # rows) =
     (case migrate_server_property ext conn row of
        Inl e \<Rightarrow> Inl e
      | Inr conn' \<Rightarrow> migrate_server_properties ext conn' rows)"

definition import_server_properties :: "externals \<Rightarrow> db \<Rightarrow> legacy \<Rightarrow> db result" where
  "import_server_properties ext conn c = migrate_server_properties ext conn (server_properties c)"

subsection \<open>\<open>import_roles\<close>\<close>

definition insert_role_auto :: "db \<Rightarrow> int \<times> int \<times> string \<Rightarrow> db result" where
  "insert_role_auto conn row =
     (case row of (server_id, role_id, rule) \<Rightarrow>
        if \<not> (in_int64 server_id \<and> in_int64 role_id) then Inl (DataError, conn)
        else if row \<in> set (role_auto conn) then Inr conn
        else Inr (conn\<lparr>role_auto := role_auto conn @ [row]\<rparr>))"

definition insert_role_joinable :: "db \<Rightarrow> int \<times> int \<Rightarrow> db result" where
  "insert_role_joinable conn row =
     (case row of (server_id, role_id) \<Rightarrow>
        if \<not> (in_int64 server_id \<and> in_int64 role_id) then Inl (DataError, conn)
        else if row \<in> set (role_joinable conn) then Inr conn
        else Inr (conn\<lparr>role_joinable := role_joinable conn @ [row]\<rparr>))"

text \<open>A loop that executes one statement per row and stops at the first exception.\<close>

fun execute_each :: "(db \<Rightarrow> 'a \<Rightarrow> db result) \<Rightarrow> db \<Rightarrow> 'a list \<Rightarrow> db result" where
  "execute_each stmt conn [] = Inr conn"
| "execute_each stmt conn (row # rows) =
     (case stmt conn row of Inl e \<Rightarrow> Inl e | Inr conn' \<Rightarrow> execute_each stmt conn' rows)"

definition import_roles :: "db \<Rightarrow> legacy \<Rightarrow> db result" where
  "import_roles conn c =
     (case execute_each insert_role_auto conn (auto_roles c) of
        Inl e \<Rightarrow> Inl e
      | Inr conn1 \<Rightarrow> execute_each insert_role_joinable conn1 (joinable_roles c))"

subsection \<open>\<open>import_events\<close>\<close>

text \<open>
  \<open>INSERT INTO event(user_id, name, start, active, description, server_id, joinable,
  slots, reminder) VALUES(...) RETURNING id\<close>, with no conflict clause.
\<close>

definition insert_event ::
  "externals \<Rightarrow> db \<Rightarrow> int \<Rightarrow> string \<Rightarrow> int \<Rightarrow> bool \<Rightarrow> string option \<Rightarrow> int \<Rightarrow> bool \<Rightarrow> int \<Rightarrow> int
     \<Rightarrow> (db \<times> int) result" where
  "insert_event ext conn creator name start active description server joinable slots status =
     (if \<not> (in_int64 creator \<and> in_int64 server \<and> in_int16 slots \<and> in_int16 status)
      then Inl (DataError, conn)
      else
        let new_id = event_id_seq conn + 1;
            now = now_at ext (now_calls conn);
            conn1 = conn\<lparr>event_id_seq := new_id, now_calls := Suc (now_calls conn)\<rparr>
        in if new_id \<in> ev_id ` set (event conn) then Inl (UniqueViolationError, conn1)
           else Inr (conn1\<lparr>event := event conn @
                        [\<lparr>ev_id = new_id, ev_user_id = creator, ev_server_id = server,
                          ev_name = name, ev_description = description, ev_start = start,
                          ev_active = active, ev_reminder = status, ev_joinable = joinable,
                          ev_slots = slots, ev_modified = now, ev_created = now\<rparr>]\<rparr>,
                     new_id))"

text \<open>
  \<open>SELECT ?, user_id FROM event_subscribers WHERE event_id = ?\<close> and
  \<open>SELECT ?, name FROM event_participants LEFT JOIN chars ON id = char_id
  WHERE event_id = ?\<close>: a participant without a legacy character keeps a null name.
\<close>

definition select_event_subscribers :: "legacy \<Rightarrow> int \<Rightarrow> int \<Rightarrow> (int \<times> int) list" where
  "select_event_subscribers c event_id old_id =
     map (\<lambda>(e, user_id). (event_id, user_id)) (filter (\<lambda>(e, u). e = old_id) (event_subscribers c))"

definition left_join_chars :: "legacy \<Rightarrow> int \<Rightarrow> string option list" where
  "left_join_chars c char_id =
     (case filter (\<lambda>r. lc_id r = char_id) (chars c) of
        [] \<Rightarrow> [None]
      | rs \<Rightarrow> map (\<lambda>r. Some (lc_name r)) rs)"

definition select_event_participants ::
  "legacy \<Rightarrow> int \<Rightarrow> int \<Rightarrow> (int \<times> string option) list" where
  "select_event_participants c event_id old_id =
     concat (map (\<lambda>(e, char_id). map (\<lambda>n. (event_id, n)) (left_join_chars c char_id))
                 (filter (\<lambda>(e, ch). e = old_id) (event_participants c)))"

definition migrate_event :: "externals \<Rightarrow> db \<Rightarrow> legacy_event \<Rightarrow> (db \<times> int) result" where
  "migrate_event ext conn row =
     (case utcfromtimestamp (le_start row) of
        Inl e \<Rightarrow> Inl (e, conn)
      | Inr start \<Rightarrow>
          let active = py_bool (le_active row);
              joinable = py_bool (le_joinable row);
              status = 4 - le_status row
          in insert_event ext conn (le_creator row) (le_name row) start active
               (le_description row) (le_server row) joinable (le_slots row) status)"

fun migrate_events ::
  "externals \<Rightarrow> legacy \<Rightarrow> db \<Rightarrow> (int \<times> int) list \<Rightarrow> (int \<times> string option) list
     \<Rightarrow> legacy_event list \<Rightarrow> (db \<times> (int \<times> int) list \<times> (int \<times> string option) list) result" where
  "migrate_events ext c conn subs parts [] = Inr (conn, subs, parts)"
| "migrate_events ext c conn subs parts (row # rows) =
     (case migrate_event ext conn row of
        Inl e \<Rightarrow> Inl e
      | Inr (conn', event_id) \<Rightarrow>
          migrate_events ext c conn'
            (subs @ select_event_subscribers c event_id (le_id row))
            (parts @ select_event_participants c event_id (le_id row)) rows)"

text \<open>
  \<open>INSERT INTO event_subscriber(event_id, user_id) VALUES($1, $2)
  ON CONFLICT(event_id, user_id) DO NOTHING\<close>.
\<close>

definition insert_event_subscriber :: "db \<Rightarrow> int \<times> int \<Rightarrow> db result" where
  "insert_event_subscriber conn row =
     (case row of (event_id, user_id) \<Rightarrow>
        if \<not> in_int64 user_id then Inl (DataError, conn)
        else if row \<in> set (event_subscriber conn) then Inr conn
        else if event_id \<notin> ev_id ` set (event conn) then Inl (ForeignKeyViolationError, conn)
        else Inr (conn\<lparr>event_subscriber := event_subscriber conn @ [row]\<rparr>))"

text \<open>
  \<open>SELECT id FROM "character" WHERE name = $1\<close> through \<open>fetchval\<close>: the first row, or
  \<open>None\<close>. A null name equals no name.
\<close>

definition select_character_id :: "db \<Rightarrow> string option \<Rightarrow> int option" where
  "select_character_id conn name =
     (case name of
        None \<Rightarrow> None
      | Some n \<Rightarrow> map_option ch_id (find (\<lambda>r. ch_name r = n) (character conn)))"

definition insert_event_participant :: "db \<Rightarrow> int \<Rightarrow> int \<Rightarrow> db result" where
  "insert_event_participant conn event_id char_id =
     (if (event_id, char_id) \<in> set (event_participant conn) then Inr conn
      else if event_id \<notin> ev_id ` set (event conn) \<or> char_id \<notin> ch_id ` set (character conn)
      then Inl (ForeignKeyViolationError, conn)
      else Inr (conn\<lparr>event_participant := event_participant conn @ [(event_id, char_id)]\<rparr>))"

definition migrate_event_participant :: "db \<Rightarrow> int \<times> string option \<Rightarrow> db result" where
  "migrate_event_participant conn row =
     (case row of (event_id, name) \<Rightarrow>
        (case select_character_id conn name of
           None \<Rightarrow> Inr conn
         | Some char_id \<Rightarrow> insert_event_participant conn event_id char_id))"

definition import_events :: "externals \<Rightarrow> db \<Rightarrow> legacy \<Rightarrow> db result" where
  "import_events ext conn c =
     (case migrate_events ext c conn [] [] (events c) of
        Inl e \<Rightarrow> Inl e
      | Inr (conn1, subs, parts) \<Rightarrow>
          (case execute_each insert_event_subscriber conn1 subs of
             Inl e \<Rightarrow> Inl e
           | Inr conn2 \<Rightarrow> execute_each migrate_event_participant conn2 parts))"

subsection \<open>\<open>import_legacy_db\<close>\<close>

definition import_legacy_db :: "externals \<Rightarrow> db \<Rightarrow> legacy \<Rightarrow> (db \<times> nat \<times> nat) result" where
  "import_legacy_db ext conn c =
     (case import_characters ext conn c of
        Inl e \<Rightarrow> Inl e
      | Inr (conn1, skipped_deaths, skipped_levelups) \<Rightarrow>
          (case import_server_properties ext conn1 c of
             Inl e \<Rightarrow> Inl e
           | Inr conn2 \<Rightarrow>
               (case import_roles conn2 c of
                  Inl e \<Rightarrow> Inl e
                | Inr conn3 \<Rightarrow>
                    (case import_events ext conn3 c of
                       Inl e \<Rightarrow> Inl e
                     | Inr conn4 \<Rightarrow> Inr (conn4, skipped_deaths, skipped_levelups)))))"

subsection \<open>Derived notions\<close>

text \<open>
  The name-to-identifier pairs of the \<open>character\<close> table, its rows up to
  \<open>modified\<close>, and the level-ups and deaths the first loop collects when the
  identifiers are resolved through a given list of pairs.
\<close>

definition name_ids :: "db \<Rightarrow> (string \<times> int) list" where
  "name_ids conn = map (\<lambda>r. (ch_name r, ch_id r)) (character conn)"

definition collect_levelups :: "legacy \<Rightarrow> (string \<times> int) list \<Rightarrow> legacy_char list \<Rightarrow> legacy_levelup list" where
  "collect_levelups c ids rows =
     concat (map (\<lambda>row. case map_of ids (lc_name row) of
                           None \<Rightarrow> []
                         | Some char_id \<Rightarrow> select_levelups c char_id (lc_id row)) rows)"

definition collect_deaths :: "legacy \<Rightarrow> (string \<times> int) list \<Rightarrow> legacy_char list \<Rightarrow> legacy_death list" where
  "collect_deaths c ids rows =
     concat (map (\<lambda>row. case map_of ids (lc_name row) of
                           None \<Rightarrow> []
                         | Some char_id \<Rightarrow> select_deaths c char_id (lc_id row)) rows)"

definition strip_modified :: "db \<Rightarrow> character_row list" where
  "strip_modified conn = map (\<lambda>r. r\<lparr>ch_modified := None\<rparr>) (character conn)"

definition character_tables ::
  "db \<Rightarrow> character_row list \<times> death_row list \<times> killer_row list \<times> levelup_row list" where
  "character_tables conn =
     (character conn, character_death conn, character_death_killer conn, character_levelup conn)"

text \<open>
  The store a complete \<open>import_characters\<close> reaches for a legacy store: every legacy
  name has a row, every argument of an upsert can be encoded, and every collected death
  and level-up meets its duplicate check. The numbers of deaths and level-ups the first
  loop collects.
\<close>

definition migrated :: "db \<Rightarrow> legacy \<Rightarrow> bool" where
  "migrated conn c =
     (let rows = sort_key lc_id (chars c); ids = name_ids conn in
        (\<forall>row \<in> set rows. lc_name row \<in> fst ` set ids \<and>
            in_int64 (lc_user_id row) \<and> opt_in_int16 (lc_level row)) \<and>
        (\<forall>d \<in> set (collect_deaths c ids rows).
            case utcfromtimestamp (ld_date d) of
              Inl e \<Rightarrow> False
            | Inr t \<Rightarrow> death_exists conn t (ld_char_id d)) \<and>
        (\<forall>l \<in> set (collect_levelups c ids rows).
            case utcfromtimestamp (ll_date l) of
              Inl e \<Rightarrow> False
            | Inr t \<Rightarrow> levelup_exists conn (ll_char_id l) t))"

definition legacy_death_count :: "legacy \<Rightarrow> nat" where
  "legacy_death_count c =
     sum_list (map (\<lambda>row. length (filter (\<lambda>d. ld_char_id d = lc_id row) (char_deaths c))) (chars c))"

definition legacy_levelup_count :: "legacy \<Rightarrow> nat" where
  "legacy_levelup_count c =
     sum_list (map (\<lambda>row. length (filter (\<lambda>l. ll_char_id l = lc_id row) (char_levelups c))) (chars c))"

text \<open>
  The \<open>UNIQUE(character_id, date)\<close> constraint of \<open>character_death\<close> as a
  predicate on the store (rows with a null date do not conflict), and the relation
  between the \<open>character\<close> rows before and after an import: every old row keeps its
  place and its fields up to \<open>modified\<close>, and is unchanged when its name is outside
  the given set.
\<close>

definition unique_deaths :: "db \<Rightarrow> bool" where
  "unique_deaths conn =
     distinct (map (\<lambda>r. (dr_character_id r, dr_date r))
                   (filter (\<lambda>r. dr_date r \<noteq> None) (character_death conn)))"

definition preserved :: "string set \<Rightarrow> character_row list \<Rightarrow> character_row list \<Rightarrow> bool" where
  "preserved N old new =
     (length old \<le> length new \<and>
      (\<forall>i < length old.
          (new ! i)\<lparr>ch_modified := None\<rparr> = (old ! i)\<lparr>ch_modified := None\<rparr> \<and>
          (ch_name (old ! i) \<notin> N \<longrightarrow> new ! i = old ! i)))"

text \<open>
  The \<open>server_property\<close> rows with key \<open>prefixes\<close>, the collected participants
  whose name is not null and is the name of a row of the \<open>character\<close> table, and the
  level-up dates and skip counter of a result of \<open>import_characters\<close>.
\<close>

definition is_prefixes :: "int \<times> string \<times> json \<Rightarrow> bool" where
  "is_prefixes r = (case r of (server_id, key, v) \<Rightarrow> key = ''prefixes'')"

definition resolves :: "db \<Rightarrow> int \<times> string option \<Rightarrow> bool" where
  "resolves conn row =
     (case snd row of None \<Rightarrow> False | Some n \<Rightarrow> n \<in> ch_name ` set (character conn))"

definition levelup_dates :: "(db \<times> nat \<times> nat) result \<Rightarrow> (int option list \<times> nat) option" where
  "levelup_dates r =
     (case r of
        Inl e \<Rightarrow> None
      | Inr (conn, skipped_deaths, skipped_levelups) \<Rightarrow>
          Some (map lr_date (character_levelup conn), skipped_levelups))"

subsection \<open>Example stores\<close>

text \<open>
  An empty target store, an empty legacy store, external functions that know the one
  JSON text and the one number the examples use, and a legacy store with two characters
  of the same name, near-duplicate level-ups, duplicate deaths, an event with a
  participant that has no character, and two server properties.
\<close>

definition ext0 :: externals where
  \<open>ext0 = \<lparr>now_at = (\<lambda>k. 1000 + int k),
            json_loads = (\<lambda>s. if s = ''["!","."]'' then Some (JArray [JString ''!'', JString ''.'']) else None),
            int_of_str = (\<lambda>s. if s = ''42'' then Some 42 else None)\<rparr>\<close>

definition db0 :: db where
  "db0 = \<lparr>character = [], character_id_seq = 0, character_death = [],
          character_death_id_seq = 0, character_death_killer = [], character_levelup = [],
          character_levelup_id_seq = 0, event = [], event_id_seq = 0, event_participant = [],
          event_subscriber = [], server_property = [], server_prefixes = [], role_auto = [],
          role_joinable = [], now_calls = 0\<rparr>"

definition legacy0 :: legacy where
  "legacy0 = \<lparr>chars = [], char_levelups = [], char_deaths = [], server_properties = [],
              events = [], event_subscribers = [], event_participants = [], auto_roles = [],
              joinable_roles = []\<rparr>"

definition legacy_char0 :: "int \<Rightarrow> string \<Rightarrow> legacy_char" where
  "legacy_char0 i n = \<lparr>lc_id = i, lc_user_id = 10, lc_name = n, lc_level = Some 50,
                       lc_vocation = None, lc_world = None, lc_guild = None\<rparr>"

definition legacy_demo :: legacy where
  \<open>legacy_demo = \<lparr>chars = [legacy_char0 1 ''Alice'', legacy_char0 2 ''Bob'', legacy_char0 3 ''Alice''],
     char_levelups = [\<lparr>ll_char_id = 1, ll_level = Some 50, ll_date = 0\<rparr>,
                      \<lparr>ll_char_id = 1, ll_level = Some 51, ll_date = 10\<rparr>,
                      \<lparr>ll_char_id = 3, ll_level = Some 52, ll_date = 20\<rparr>,
                      \<lparr>ll_char_id = 2, ll_level = Some 8, ll_date = 5\<rparr>],
     char_deaths = [\<lparr>ld_char_id = 1, ld_level = Some 50, ld_date = 100, ld_killer = ''dragon'', ld_byplayer = 0\<rparr>,
                    \<lparr>ld_char_id = 3, ld_level = Some 50, ld_date = 100, ld_killer = ''Bob'', ld_byplayer = 1\<rparr>,
                    \<lparr>ld_char_id = 2, ld_level = Some 8, ld_date = 50, ld_killer = ''rat'', ld_byplayer = 0\<rparr>],
     server_properties = [\<lparr>lp_server_id = LText ''42'', lp_name = ''prefixes'', lp_value = LText ''["!","."]''\<rparr>,
                          \<lparr>lp_server_id = LInt 42, lp_name = ''commandsonly'', lp_value = LText ''0''\<rparr>],
     events = [\<lparr>le_id = 5, le_creator = 10, le_name = ''Raid'', le_start = 500, le_active = LInt 1,
                le_status = 1, le_description = None, le_server = 42, le_joinable = LInt 1, le_slots = 0\<rparr>],
     event_subscribers = [(5, 10)],
     event_participants = [(5, 1), (5, 99), (5, 3)],
     auto_roles = [(42, 7, ''Guild'')],
     joinable_roles = [(42, 8)]\<rparr>\<close>

text \<open>
  The stores reached from the empty store by one run of \<open>import_legacy_db\<close> on
  \<open>legacy_demo\<close>, and by a second run.
\<close>

definition db_demo :: db where
  "db_demo =
     \<lparr>character = [\<lparr>ch_id = 1, ch_user_id = 10, ch_name = ''Alice'',
      ch_level = Some 50, ch_world = None, ch_vocation = None, ch_guild = None,
      ch_modified = Some 1002, ch_created = Some 1000\<rparr>, \<lparr>ch_id = 2,
      ch_user_id = 10, ch_name = ''Bob'', ch_level = Some 50, ch_world = None,
      ch_vocation = None, ch_guild = None, ch_modified = Some 1001,
      ch_created = Some 1001\<rparr>], character_id_seq = 3,
      character_death = [\<lparr>dr_id = 1, dr_character_id = 2, dr_level = Some 8,
      dr_date = Some 50\<rparr>, \<lparr>dr_id = 2, dr_character_id = 1, dr_level = Some 50,
      dr_date = Some 100\<rparr>], character_death_id_seq = 2,
      character_death_killer = [\<lparr>kr_death_id = 1, kr_position = 0, kr_name = ''rat'',
      kr_player = Some False\<rparr>, \<lparr>kr_death_id = 2, kr_position = 0,
      kr_name = ''dragon'', kr_player = Some False\<rparr>],
      character_levelup = [\<lparr>lr_id = 1, lr_character_id = 1, lr_level = Some 50,
      lr_date = Some 0\<rparr>, \<lparr>lr_id = 2, lr_character_id = 2, lr_level = Some 8,
      lr_date = Some 5\<rparr>, \<lparr>lr_id = 3, lr_character_id = 1, lr_level = Some 52,
      lr_date = Some 20\<rparr>], character_levelup_id_seq = 3, event = [\<lparr>ev_id = 1,
      ev_user_id = 10, ev_server_id = 42, ev_name = ''Raid'', ev_description = None,
      ev_start = 500, ev_active = True, ev_reminder = 3, ev_joinable = True, ev_slots = 0,
      ev_modified = 1003, ev_created = 1003\<rparr>], event_id_seq = 1,
      event_participant = [(1, 1)], event_subscriber = [(1, 10)], server_property = [(42,
      ''commandsonly'', JBool True)], server_prefixes = [(42, [''!'', ''.''])],
      role_auto = [(42, 7, ''Guild'')], role_joinable = [(42, 8)], now_calls = 4\<rparr>"

definition db_demo_again :: db where
  "db_demo_again =
     \<lparr>character = [\<lparr>ch_id = 1, ch_user_id = 10, ch_name = ''Alice'',
      ch_level = Some 50, ch_world = None, ch_vocation = None, ch_guild = None,
      ch_modified = Some 1006, ch_created = Some 1000\<rparr>, \<lparr>ch_id = 2,
      ch_user_id = 10, ch_name = ''Bob'', ch_level = Some 50, ch_world = None,
      ch_vocation = None, ch_guild = None, ch_modified = Some 1005,
      ch_created = Some 1001\<rparr>], character_id_seq = 6,
      character_death = [\<lparr>dr_id = 1, dr_character_id = 2, dr_level = Some 8,
      dr_date = Some 50\<rparr>, \<lparr>dr_id = 2, dr_character_id = 1, dr_level = Some 50,
      dr_date = Some 100\<rparr>], character_death_id_seq = 2,
      character_death_killer = [\<lparr>kr_death_id = 1, kr_position = 0, kr_name = ''rat'',
      kr_player = Some False\<rparr>, \<lparr>kr_death_id = 2, kr_position = 0,
      kr_name = ''dragon'', kr_player = Some False\<rparr>],
      character_levelup = [\<lparr>lr_id = 1, lr_character_id = 1, lr_level = Some 50,
      lr_date = Some 0\<rparr>, \<lparr>lr_id = 2, lr_character_id = 2, lr_level = Some 8,
      lr_date = Some 5\<rparr>, \<lparr>lr_id = 3, lr_character_id = 1, lr_level = Some 52,
      lr_date = Some 20\<rparr>], character_levelup_id_seq = 3, event = [\<lparr>ev_id = 1,
      ev_user_id = 10, ev_server_id = 42, ev_name = ''Raid'', ev_description = None,
      ev_start = 500, ev_active = True, ev_reminder = 3, ev_joinable = True, ev_slots = 0,
      ev_modified = 1003, ev_created = 1003\<rparr>, \<lparr>ev_id = 2, ev_user_id = 10,
      ev_server_id = 42, ev_name = ''Raid'', ev_description = None, ev_start = 500,
      ev_active = True, ev_reminder = 3, ev_joinable = True, ev_slots = 0, ev_modified = 1007,
      ev_created = 1007\<rparr>], event_id_seq = 2, event_participant = [(1, 1), (2, 1)],
      event_subscriber = [(1, 10), (2, 10)], server_property = [(42, ''commandsonly'',
      JBool True)], server_prefixes = [(42, [''!'', ''.''])], role_auto = [(42, 7, ''Guild'')],
      role_joinable = [(42, 8)], now_calls = 8\<rparr>"

definition legacy_event0 :: "int \<Rightarrow> int \<Rightarrow> legacy_event" where
  "legacy_event0 i status =
     \<lparr>le_id = i, le_creator = 10, le_name = ''Raid'', le_start = 500, le_active = LInt 1,
      le_status = status, le_description = None, le_server = 42, le_joinable = LInt 0,
      le_slots = 0\<rparr>"

definition legacy_events_demo :: legacy where
  "legacy_events_demo = legacy0\<lparr>events := [legacy_event0 5 1, legacy_event0 6 4]\<rparr>"

definition db_events_demo :: db where
  "db_events_demo =
     db0\<lparr>event :=
           [\<lparr>ev_id = 1, ev_user_id = 10, ev_server_id = 42, ev_name = ''Raid'',
             ev_description = None, ev_start = 500, ev_active = True, ev_reminder = 3,
             ev_joinable = False, ev_slots = 0, ev_modified = 1000, ev_created = 1000\<rparr>,
            \<lparr>ev_id = 2, ev_user_id = 10, ev_server_id = 42, ev_name = ''Raid'',
             ev_description = None, ev_start = 500, ev_active = True, ev_reminder = 0,
             ev_joinable = False, ev_slots = 0, ev_modified = 1001, ev_created = 1001\<rparr>],
         event_id_seq := 2, now_calls := 2\<rparr>"


definition legacy_prefixes_demo :: legacy where
  \<open>legacy_prefixes_demo =
     legacy0\<lparr>server_properties :=
       [\<lparr>lp_server_id = LText ''42'', lp_name = ''prefixes'', lp_value = LText ''["!","."]''\<rparr>]\<rparr>\<close>

definition legacy_orphan_demo :: legacy where
  "legacy_orphan_demo =
     legacy0\<lparr>chars := [legacy_char0 1 ''Alice'', legacy_char0 2 ''Carol''],
             events := [legacy_event0 5 1],
             event_participants := [(5, 1), (5, 99), (5, 2)]\<rparr>"

definition db_orphan_demo :: db where
  "db_orphan_demo =
     db0\<lparr>character :=
           [\<lparr>ch_id = 6, ch_user_id = 11, ch_name = ''Zed'', ch_level = Some 9,
             ch_world = None, ch_vocation = None, ch_guild = None, ch_modified = None,
             ch_created = None\<rparr>,
            \<lparr>ch_id = 7, ch_user_id = 10, ch_name = ''Alice'', ch_level = Some 50,
             ch_world = None, ch_vocation = None, ch_guild = None, ch_modified = None,
             ch_created = None\<rparr>],
         character_id_seq := 7\<rparr>"

definition db_orphan_events :: db where
  "db_orphan_events =
     db_orphan_demo\<lparr>event :=
           [\<lparr>ev_id = 1, ev_user_id = 10, ev_server_id = 42, ev_name = ''Raid'',
             ev_description = None, ev_start = 500, ev_active = True, ev_reminder = 3,
             ev_joinable = False, ev_slots = 0, ev_modified = 1000, ev_created = 1000\<rparr>],
         event_id_seq := 1, now_calls := 1\<rparr>"

definition legacy_levelups_demo :: "int \<Rightarrow> legacy" where
  "legacy_levelups_demo t =
     legacy0\<lparr>chars := [legacy_char0 1 ''Alice''],
             char_levelups := [\<lparr>ll_char_id = 1, ll_level = Some 50, ll_date = 0\<rparr>,
                               \<lparr>ll_char_id = 1, ll_level = Some 51, ll_date = t\<rparr>]\<rparr>"

definition db_levelup_demo :: db where
  "db_levelup_demo =
     db0\<lparr>character :=
           [\<lparr>ch_id = 1, ch_user_id = 10, ch_name = ''Alice'', ch_level = Some 50,
             ch_world = None, ch_vocation = None, ch_guild = None, ch_modified = None,
             ch_created = None\<rparr>],
         character_levelup :=
           [\<lparr>lr_id = 1, lr_character_id = 1, lr_level = Some 50, lr_date = Some 100\<rparr>],
         character_levelup_id_seq := 1\<rparr>"

definition legacy_deaths_demo :: legacy where
  "legacy_deaths_demo =
     legacy0\<lparr>chars := [legacy_char0 1 ''Alice''],
             char_deaths :=
               [\<lparr>ld_char_id = 1, ld_level = Some 50, ld_date = 100, ld_killer = ''dragon'',
                 ld_byplayer = 0\<rparr>,
                \<lparr>ld_char_id = 1, ld_level = Some 50, ld_date = 100, ld_killer = ''Bob'',
                 ld_byplayer = 1\<rparr>,
                \<lparr>ld_char_id = 1, ld_level = Some 49, ld_date = 40, ld_killer = ''Bob'',
                 ld_byplayer = 1\<rparr>]\<rparr>"

definition db_deaths_demo :: db where
  "db_deaths_demo =
     db0\<lparr>character :=
           [\<lparr>ch_id = 1, ch_user_id = 10, ch_name = ''Alice'', ch_level = Some 50,
             ch_world = None, ch_vocation = None, ch_guild = None, ch_modified = Some 1000,
             ch_created = Some 1000\<rparr>],
         character_id_seq := 1,
         character_death :=
           [\<lparr>dr_id = 1, dr_character_id = 1, dr_level = Some 49, dr_date = Some 40\<rparr>,
            \<lparr>dr_id = 2, dr_character_id = 1, dr_level = Some 50, dr_date = Some 100\<rparr>],
         character_death_id_seq := 2,
         character_death_killer :=
           [\<lparr>kr_death_id = 1, kr_position = 0, kr_name = ''Bob'', kr_player = Some True\<rparr>,
            \<lparr>kr_death_id = 2, kr_position = 0, kr_name = ''dragon'',
             kr_player = Some False\<rparr>],
         now_calls := 1\<rparr>"

definition legacy_death0 :: "int \<Rightarrow> legacy_death" where
  "legacy_death0 t =
     \<lparr>ld_char_id = 1, ld_level = Some 50, ld_date = t, ld_killer = ''Bob'', ld_byplayer = 1\<rparr>"

definition db_deaths_demo_next :: db where
  "db_deaths_demo_next =
     db_deaths_demo\<lparr>character_death_id_seq := 3,
       character_death := character_death db_deaths_demo @
         [\<lparr>dr_id = 3, dr_character_id = 1, dr_level = Some 50, dr_date = Some 101\<rparr>],
       character_death_killer := character_death_killer db_deaths_demo @
         [\<lparr>kr_death_id = 3, kr_position = 0, kr_name = ''Bob'', kr_player = Some True\<rparr>]\<rparr>"

definition legacy_failing_demo :: legacy where
  "legacy_failing_demo =
     legacy0\<lparr>chars := [(legacy_char0 1 ''Alice'')\<lparr>lc_level := Some 40000\<rparr>, legacy_char0 2 ''Bob'']\<rparr>"

definition legacy_failing_death_demo :: legacy where
  "legacy_failing_death_demo =
     legacy0\<lparr>chars := [legacy_char0 1 ''Alice''],
             char_deaths := [(legacy_death0 100)\<lparr>ld_level := Some 40000\<rparr>, legacy_death0 200]\<rparr>"

definition legacy_levelup0 :: "int \<Rightarrow> int \<Rightarrow> legacy_levelup" where
  "legacy_levelup0 level t = \<lparr>ll_char_id = 1, ll_level = Some level, ll_date = t\<rparr>"

definition legacy_failing_levelup_demo :: legacy where
  "legacy_failing_levelup_demo =
     legacy0\<lparr>chars := [legacy_char0 1 ''Alice''],
             char_levelups := [legacy_levelup0 40000 100, legacy_levelup0 51 200]\<rparr>"

definition db_alice :: db where
  "db_alice =
     db0\<lparr>character :=
           [\<lparr>ch_id = 1, ch_user_id = 10, ch_name = ''Alice'', ch_level = Some 50,
             ch_world = None, ch_vocation = None, ch_guild = None, ch_modified = Some 1000,
             ch_created = Some 1000\<rparr>],
         character_id_seq := 1, now_calls := 1\<rparr>"

definition db_existing_demo :: db where
  "db_existing_demo =
     db0\<lparr>character :=
           [\<lparr>ch_id = 7, ch_user_id = 99, ch_name = ''Alice'', ch_level = Some 8,
             ch_world = Some ''Antica'', ch_vocation = Some ''Knight'', ch_guild = None,
             ch_modified = Some 5, ch_created = Some 5\<rparr>,
            \<lparr>ch_id = 8, ch_user_id = 98, ch_name = ''Zed'', ch_level = Some 9,
             ch_world = None, ch_vocation = None, ch_guild = None,
             ch_modified = Some 6, ch_created = Some 6\<rparr>],
         character_id_seq := 8\<rparr>"

definition db_existing_demo_after :: db where
  "db_existing_demo_after =
     db0\<lparr>character :=
           [\<lparr>ch_id = 7, ch_user_id = 99, ch_name = ''Alice'', ch_level = Some 8,
             ch_world = Some ''Antica'', ch_vocation = Some ''Knight'', ch_guild = None,
             ch_modified = Some 1000, ch_created = Some 5\<rparr>,
            \<lparr>ch_id = 8, ch_user_id = 98, ch_name = ''Zed'', ch_level = Some 9,
             ch_world = None, ch_vocation = None, ch_guild = None,
             ch_modified = Some 6, ch_created = Some 6\<rparr>],
         character_id_seq := 9, now_calls := 1\<rparr>"

definition legacy_alice_demo :: legacy where
  "legacy_alice_demo = legacy0\<lparr>chars := [legacy_char0 1 ''Alice'']\<rparr>"

section \<open>Properties\<close>

subsection \<open>The character upsert\<close>

lemma find_map_of:
  "map_option ch_id (find (\<lambda>r. ch_name r = n) rs) = map_of (map (\<lambda>r. (ch_name r, ch_id r)) rs) n"
  by (induction rs) auto

lemma select_character_id_map_of:
  "select_character_id conn (Some n) = map_of (name_ids conn) n"
  by (simp add: select_character_id_def name_ids_def find_map_of)

lemma find_None_names: "find (\<lambda>r. ch_name r = n) rs = None \<longleftrightarrow> n \<notin> ch_name ` set rs"
  by (induction rs) auto

lemma touch_name_ids:
  "(\<lambda>r. (ch_name r, ch_id r)) \<circ>
     (\<lambda>r. if ch_name r = n then r\<lparr>ch_name := n, ch_modified := m\<rparr> else r) =
   (\<lambda>r. (ch_name r, ch_id r))"
  by (auto simp: fun_eq_iff)

lemma upsert_character_cases:
  assumes "upsert_character ext conn row = Inr (conn', cid)"
  obtains
    (conflict) old where
      "find (\<lambda>r. ch_name r = lc_name row) (character conn) = Some old"
      "cid = ch_id old"
      "conn' = conn\<lparr>character_id_seq := character_id_seq conn + 1,
                     now_calls := Suc (now_calls conn),
                     character := map (\<lambda>r. if ch_name r = lc_name row
                          then r\<lparr>ch_name := lc_name row,
                                 ch_modified := Some (now_at ext (now_calls conn))\<rparr>
                          else r) (character conn)\<rparr>"
  | (fresh)
      "find (\<lambda>r. ch_name r = lc_name row) (character conn) = None"
      "cid = character_id_seq conn + 1"
      "cid \<notin> ch_id ` set (character conn)"
      "conn' = conn\<lparr>character_id_seq := character_id_seq conn + 1,
                     now_calls := Suc (now_calls conn),
                     character := character conn @
                            [\<lparr>ch_id = cid, ch_user_id = lc_user_id row, ch_name = lc_name row,
                              ch_level = lc_level row, ch_world = lc_world row,
                              ch_vocation = lc_vocation row, ch_guild = lc_guild row,
                              ch_modified = Some (now_at ext (now_calls conn)),
                              ch_created = Some (now_at ext (now_calls conn))\<rparr>]\<rparr>"
  using assms
  by (auto simp: upsert_character_def Let_def split: if_splits option.splits)

lemma upsert_character_checks:
  "upsert_character ext conn row = Inr (conn', cid) \<Longrightarrow>
     in_int64 (lc_user_id row) \<and> opt_in_int16 (lc_level row)"
  by (auto simp: upsert_character_def split: if_splits)

lemma upsert_character_name_ids:
  assumes "upsert_character ext conn row = Inr (conn', cid)"
  shows "name_ids conn' = name_ids conn @
           (if lc_name row \<in> fst ` set (name_ids conn) then [] else [(lc_name row, cid)])"
  using assms
proof (cases rule: upsert_character_cases)
  case (conflict old)
  then show ?thesis
    by (auto simp: name_ids_def touch_name_ids find_None_names image_image dest!: find_Some_iff[THEN iffD1])
      (metis nth_mem image_eqI)
next
  case fresh
  then show ?thesis
    by (auto simp: name_ids_def find_None_names image_image)
qed

lemma upsert_character_resolves:
  assumes "upsert_character ext conn row = Inr (conn', cid)"
  shows "map_of (name_ids conn') (lc_name row) = Some cid"
  using assms
proof (cases rule: upsert_character_cases)
  case (conflict old)
  then show ?thesis
    using find_map_of[of "lc_name row" "character conn"]
    by (simp add: name_ids_def touch_name_ids)
next
  case fresh
  then show ?thesis
    using find_map_of[of "lc_name row" "character conn"]
    by (simp add: name_ids_def map_add_Some_iff)
qed

lemma upsert_character_frame:
  assumes "upsert_character ext conn row = Inr (conn', cid)"
  shows "character_death conn' = character_death conn"
    and "character_death_killer conn' = character_death_killer conn"
    and "character_levelup conn' = character_levelup conn"
    and "character_death_id_seq conn' = character_death_id_seq conn"
    and "character_levelup_id_seq conn' = character_levelup_id_seq conn"
    and "event conn' = event conn"
    and "event_participant conn' = event_participant conn"
    and "event_subscriber conn' = event_subscriber conn"
    and "server_property conn' = server_property conn"
    and "server_prefixes conn' = server_prefixes conn"
  using assms by (cases rule: upsert_character_cases; simp)+

lemma upsert_character_stable:
  assumes "upsert_character ext conn row = Inr (conn', cid)"
    and "map_of (name_ids conn) n = Some i"
  shows "map_of (name_ids conn') n = Some i"
  using assms by (simp add: upsert_character_name_ids map_add_Some_iff)

lemma migrate_characters_stable:
  "migrate_characters ext c conn lus ds rows = Inr (conn', lus', ds') \<Longrightarrow>
   map_of (name_ids conn) n = Some i \<Longrightarrow> map_of (name_ids conn') n = Some i"
proof (induction rows arbitrary: conn lus ds)
  case Nil
  then show ?case by simp
next
  case (Cons row rows)
  from Cons.prems(1) obtain conn1 cid where
    up: "upsert_character ext conn row = Inr (conn1, cid)" and
    rest: "migrate_characters ext c conn1 (lus @ select_levelups c cid (lc_id row))
             (ds @ select_deaths c cid (lc_id row)) rows = Inr (conn', lus', ds')"
    by (auto split: sum.splits)
  from upsert_character_stable[OF up Cons.prems(2)] Cons.IH[OF rest] show ?case by blast
qed

lemma migrate_characters_collect:
  "migrate_characters ext c conn lus ds rows = Inr (conn', lus', ds') \<Longrightarrow>
   lus' = lus @ collect_levelups c (name_ids conn') rows \<and>
   ds' = ds @ collect_deaths c (name_ids conn') rows \<and>
   (\<forall>row \<in> set rows. lc_name row \<in> fst ` set (name_ids conn') \<and>
        in_int64 (lc_user_id row) \<and> opt_in_int16 (lc_level row))"
proof (induction rows arbitrary: conn lus ds)
  case Nil
  then show ?case by (simp add: collect_levelups_def collect_deaths_def)
next
  case (Cons row rows)
  from Cons.prems(1) obtain conn1 cid where
    up: "upsert_character ext conn row = Inr (conn1, cid)" and
    rest: "migrate_characters ext c conn1 (lus @ select_levelups c cid (lc_id row))
             (ds @ select_deaths c cid (lc_id row)) rows = Inr (conn', lus', ds')"
    by (auto split: sum.splits)
  have res: "map_of (name_ids conn') (lc_name row) = Some cid"
    using migrate_characters_stable[OF rest upsert_character_resolves[OF up]] .
  then have mem: "lc_name row \<in> fst ` set (name_ids conn')"
    by (metis map_of_SomeD fst_conv image_eqI)
  show ?case
    using Cons.IH[OF rest] res mem upsert_character_checks[OF up]
    by (simp add: collect_levelups_def collect_deaths_def)
qed

lemma migrate_characters_frame:
  "migrate_characters ext c conn lus ds rows = Inr (conn', lus', ds') \<Longrightarrow>
   character_death conn' = character_death conn \<and>
   character_death_killer conn' = character_death_killer conn \<and>
   character_levelup conn' = character_levelup conn \<and>
   character_death_id_seq conn' = character_death_id_seq conn \<and>
   character_levelup_id_seq conn' = character_levelup_id_seq conn \<and>
   event conn' = event conn \<and>
   event_participant conn' = event_participant conn \<and>
   event_subscriber conn' = event_subscriber conn \<and>
   server_property conn' = server_property conn \<and>
   server_prefixes conn' = server_prefixes conn"
proof (induction rows arbitrary: conn lus ds)
  case Nil
  then show ?case by simp
next
  case (Cons row rows)
  from Cons.prems(1) obtain conn1 cid where
    up: "upsert_character ext conn row = Inr (conn1, cid)" and
    rest: "migrate_characters ext c conn1 (lus @ select_levelups c cid (lc_id row))
             (ds @ select_deaths c cid (lc_id row)) rows = Inr (conn', lus', ds')"
    by (auto split: sum.splits)
  show ?case using Cons.IH[OF rest] upsert_character_frame[OF up] by simp
qed

text \<open>Second run: all names resolve.\<close>

lemma upsert_character_existing:
  assumes "lc_name row \<in> fst ` set (name_ids conn)"
    and "in_int64 (lc_user_id row)" and "opt_in_int16 (lc_level row)"
  shows "\<exists>conn' cid. upsert_character ext conn row = Inr (conn', cid) \<and>
           map (\<lambda>r. r\<lparr>ch_modified := None\<rparr>) (character conn') =
           map (\<lambda>r. r\<lparr>ch_modified := None\<rparr>) (character conn)"
proof -
  from assms(1) have "find (\<lambda>r. ch_name r = lc_name row) (character conn) \<noteq> None"
    by (auto simp: find_None_names name_ids_def image_image)
  then obtain old where "find (\<lambda>r. ch_name r = lc_name row) (character conn) = Some old"
    by auto
  then show ?thesis
    using assms(2,3)
    by (auto simp: upsert_character_def Let_def)
qed

lemma name_ids_strip: "name_ids conn = map (\<lambda>r. (ch_name r, ch_id r)) (strip_modified conn)"
  by (simp add: name_ids_def strip_modified_def o_def)

lemma upsert_character_existing_frame:
  assumes "lc_name row \<in> fst ` set (name_ids conn)"
    and "in_int64 (lc_user_id row)" and "opt_in_int16 (lc_level row)"
  shows "\<exists>conn' cid. upsert_character ext conn row = Inr (conn', cid) \<and>
           strip_modified conn' = strip_modified conn \<and>
           character_death conn' = character_death conn \<and>
           character_death_killer conn' = character_death_killer conn \<and>
           character_levelup conn' = character_levelup conn"
proof -
  from upsert_character_existing[OF assms, of ext] obtain conn' cid where
    up: "upsert_character ext conn row = Inr (conn', cid)" and
    st: "strip_modified conn' = strip_modified conn"
    by (auto simp: strip_modified_def)
  with upsert_character_frame[OF up] show ?thesis by simp
qed

lemma migrate_characters_existing:
  assumes "\<forall>row \<in> set rows. lc_name row \<in> fst ` set (name_ids conn) \<and>
             in_int64 (lc_user_id row) \<and> opt_in_int16 (lc_level row)"
  shows "\<exists>conn'. migrate_characters ext c conn lus ds rows =
             Inr (conn', lus @ collect_levelups c (name_ids conn) rows,
                  ds @ collect_deaths c (name_ids conn) rows) \<and>
           strip_modified conn' = strip_modified conn \<and>
           character_death conn' = character_death conn \<and>
           character_death_killer conn' = character_death_killer conn \<and>
           character_levelup conn' = character_levelup conn"
  using assms
proof (induction rows arbitrary: conn lus ds)
  case Nil
  then show ?case by (simp add: collect_levelups_def collect_deaths_def)
next
  case (Cons row rows)
  from Cons.prems have "lc_name row \<in> fst ` set (name_ids conn)"
    "in_int64 (lc_user_id row)" "opt_in_int16 (lc_level row)" by simp_all
  from upsert_character_existing_frame[OF this, of ext] obtain conn1 cid where
    up: "upsert_character ext conn row = Inr (conn1, cid)" and
    st: "strip_modified conn1 = strip_modified conn" and
    fr: "character_death conn1 = character_death conn"
        "character_death_killer conn1 = character_death_killer conn"
        "character_levelup conn1 = character_levelup conn"
    by blast
  have ids: "name_ids conn1 = name_ids conn" by (simp add: name_ids_strip st)
  have cid: "map_of (name_ids conn) (lc_name row) = Some cid"
    using upsert_character_resolves[OF up] ids by simp
  from Cons.prems ids have
    "\<forall>row \<in> set rows. lc_name row \<in> fst ` set (name_ids conn1) \<and>
             in_int64 (lc_user_id row) \<and> opt_in_int16 (lc_level row)" by simp
  from Cons.IH[OF this, of "lus @ select_levelups c cid (lc_id row)"
                 "ds @ select_deaths c cid (lc_id row)"]
  show ?case using up st fr ids cid
    by (auto simp: collect_levelups_def collect_deaths_def)
qed

subsection \<open>Deaths\<close>

lemma migrate_death_cases:
  assumes "migrate_death conn n d = Inr (conn', n')"
  obtains
    (skipped) t where "utcfromtimestamp (ld_date d) = Inr t"
      "death_exists conn t (ld_char_id d)" "conn' = conn" "n' = Suc n"
  | (inserted) t where "utcfromtimestamp (ld_date d) = Inr t"
      "\<not> death_exists conn t (ld_char_id d)" "n' = n"
      "opt_in_int16 (ld_level d)"
      "character_death_id_seq conn + 1 \<notin> dr_id ` set (character_death conn)"
      "ld_char_id d \<in> ch_id ` set (character conn)"
      "conn' = conn\<lparr>character_death_id_seq := character_death_id_seq conn + 1,
                     character_death := character_death conn @
                        [\<lparr>dr_id = character_death_id_seq conn + 1,
                          dr_character_id = ld_char_id d, dr_level = ld_level d,
                          dr_date = Some t\<rparr>],
                     character_death_killer := character_death_killer conn @
                        [\<lparr>kr_death_id = character_death_id_seq conn + 1, kr_position = 0,
                          kr_name = ld_killer d, kr_player = Some (ld_byplayer d = 1)\<rparr>]\<rparr>"
  using assms
  by (auto simp: migrate_death_def insert_death_def insert_death_killer_def Let_def
           split: sum.splits if_splits)

lemma migrate_death_mono:
  assumes "migrate_death conn n d = Inr (conn', n')"
  shows "\<exists>t. utcfromtimestamp (ld_date d) = Inr t \<and> death_exists conn' t (ld_char_id d)"
    and "death_exists conn t0 cid \<Longrightarrow> death_exists conn' t0 cid"
    and "character conn' = character conn"
    and "character_levelup conn' = character_levelup conn"
  using assms by (cases rule: migrate_death_cases; auto simp: death_exists_def)+

lemma migrate_deaths_mono:
  "migrate_deaths conn n ds = Inr (conn', n') \<Longrightarrow>
   (\<forall>d \<in> set ds. \<exists>t. utcfromtimestamp (ld_date d) = Inr t \<and> death_exists conn' t (ld_char_id d)) \<and>
   (\<forall>t0 cid. death_exists conn t0 cid \<longrightarrow> death_exists conn' t0 cid) \<and>
   character conn' = character conn \<and>
   character_levelup conn' = character_levelup conn"
proof (induction ds arbitrary: conn n)
  case Nil
  then show ?case by simp
next
  case (Cons d ds)
  from Cons.prems obtain conn1 n1 where
    st: "migrate_death conn n d = Inr (conn1, n1)" and
    rest: "migrate_deaths conn1 n1 ds = Inr (conn', n')"
    by (auto split: sum.splits)
  show ?case
    using Cons.IH[OF rest] migrate_death_mono[OF st] by auto
qed

lemma migrate_deaths_all_exist:
  "\<forall>d \<in> set ds. \<exists>t. utcfromtimestamp (ld_date d) = Inr t \<and> death_exists conn t (ld_char_id d) \<Longrightarrow>
   migrate_deaths conn n ds = Inr (conn, n + length ds)"
  by (induction ds arbitrary: n) (auto simp: migrate_death_def)

subsection \<open>Level-ups\<close>

lemma migrate_levelup_cases:
  assumes "migrate_levelup conn n l = Inr (conn', n')"
  obtains
    (skipped) t where "utcfromtimestamp (ll_date l) = Inr t"
      "levelup_exists conn (ll_char_id l) t" "conn' = conn" "n' = Suc n"
  | (inserted) t where "utcfromtimestamp (ll_date l) = Inr t"
      "\<not> levelup_exists conn (ll_char_id l) t" "n' = n"
      "opt_in_int16 (ll_level l)"
      "character_levelup_id_seq conn + 1 \<notin> lr_id ` set (character_levelup conn)"
      "ll_char_id l \<in> ch_id ` set (character conn)"
      "conn' = conn\<lparr>character_levelup_id_seq := character_levelup_id_seq conn + 1,
                     character_levelup := character_levelup conn @
                        [\<lparr>lr_id = character_levelup_id_seq conn + 1,
                          lr_character_id = ll_char_id l, lr_level = ll_level l,
                          lr_date = Some t\<rparr>]\<rparr>"
  using assms
  by (auto simp: migrate_levelup_def insert_levelup_def Let_def split: sum.splits if_splits)

lemma migrate_levelup_mono:
  assumes "migrate_levelup conn n l = Inr (conn', n')"
  shows "\<exists>t. utcfromtimestamp (ll_date l) = Inr t \<and> levelup_exists conn' (ll_char_id l) t"
    and "levelup_exists conn cid t0 \<Longrightarrow> levelup_exists conn' cid t0"
    and "character conn' = character conn"
    and "character_death conn' = character_death conn"
    and "character_death_killer conn' = character_death_killer conn"
  using assms by (cases rule: migrate_levelup_cases; auto simp: levelup_exists_def)+

lemma migrate_levelups_mono:
  "migrate_levelups conn n ls = Inr (conn', n') \<Longrightarrow>
   (\<forall>l \<in> set ls. \<exists>t. utcfromtimestamp (ll_date l) = Inr t \<and> levelup_exists conn' (ll_char_id l) t) \<and>
   (\<forall>t0 cid. levelup_exists conn cid t0 \<longrightarrow> levelup_exists conn' cid t0) \<and>
   character conn' = character conn \<and>
   character_death conn' = character_death conn \<and>
   character_death_killer conn' = character_death_killer conn"
proof (induction ls arbitrary: conn n)
  case Nil
  then show ?case by simp
next
  case (Cons l ls)
  from Cons.prems obtain conn1 n1 where
    st: "migrate_levelup conn n l = Inr (conn1, n1)" and
    rest: "migrate_levelups conn1 n1 ls = Inr (conn', n')"
    by (auto split: sum.splits)
  show ?case
    using Cons.IH[OF rest] migrate_levelup_mono[OF st] by auto
qed

lemma migrate_levelups_all_exist:
  "\<forall>l \<in> set ls. \<exists>t. utcfromtimestamp (ll_date l) = Inr t \<and> levelup_exists conn (ll_char_id l) t \<Longrightarrow>
   migrate_levelups conn n ls = Inr (conn, n + length ls)"
  by (induction ls arbitrary: n) (auto simp: migrate_levelup_def)

lemma execute_each_preserves:
  assumes "\<And>conn row conn'. stmt conn row = Inr conn' \<Longrightarrow> f conn' = f conn"
  shows "execute_each stmt conn rows = Inr conn' \<Longrightarrow> f conn' = f conn"
proof (induction rows arbitrary: conn)
  case Nil
  then show ?case by simp
next
  case (Cons row rows)
  from Cons.prems obtain conn1 where
    st: "stmt conn row = Inr conn1" and rest: "execute_each stmt conn1 rows = Inr conn'"
    by (auto split: sum.splits)
  from Cons.IH[OF rest] assms[OF st] show ?case by simp
qed

lemma insert_server_prefixes_frame:
  "insert_server_prefixes conn server prefixes = Inr conn' \<Longrightarrow>
   character_tables conn' = character_tables conn \<and> server_property conn' = server_property conn"
  by (auto simp: insert_server_prefixes_def character_tables_def split: if_splits sum.splits)

lemma insert_server_property_frame:
  "insert_server_property conn server key v = Inr conn' \<Longrightarrow>
   character_tables conn' = character_tables conn \<and> server_prefixes conn' = server_prefixes conn"
  by (auto simp: insert_server_property_def character_tables_def split: if_splits)

lemma migrate_server_property_frame:
  "migrate_server_property ext conn row = Inr conn' \<Longrightarrow>
   character_tables conn' = character_tables conn"
  by (auto simp: migrate_server_property_def
           dest: insert_server_prefixes_frame insert_server_property_frame
           split: sum.splits if_splits)

lemma migrate_server_properties_preserves:
  assumes "\<And>conn row conn'. migrate_server_property ext conn row = Inr conn' \<Longrightarrow> f conn' = f conn"
  shows "migrate_server_properties ext conn rows = Inr conn' \<Longrightarrow> f conn' = f conn"
proof (induction rows arbitrary: conn)
  case Nil
  then show ?case by simp
next
  case (Cons row rows)
  from Cons.prems obtain conn1 where
    st: "migrate_server_property ext conn row = Inr conn1" and
    rest: "migrate_server_properties ext conn1 rows = Inr conn'"
    by (auto split: sum.splits)
  from Cons.IH[OF rest] assms[OF st] show ?case by simp
qed

lemma import_server_properties_frame:
  "import_server_properties ext conn c = Inr conn' \<Longrightarrow>
   character_tables conn' = character_tables conn"
  unfolding import_server_properties_def
  by (rule migrate_server_properties_preserves[where f = character_tables])
     (rule migrate_server_property_frame)

lemma import_roles_frame:
  "import_roles conn c = Inr conn' \<Longrightarrow> character_tables conn' = character_tables conn"
proof -
  have a: "\<And>conn row conn'. insert_role_auto conn row = Inr conn' \<Longrightarrow>
             character_tables conn' = character_tables conn"
    by (auto simp: insert_role_auto_def character_tables_def split: if_splits prod.splits)
  have j: "\<And>conn row conn'. insert_role_joinable conn row = Inr conn' \<Longrightarrow>
             character_tables conn' = character_tables conn"
    by (auto simp: insert_role_joinable_def character_tables_def split: if_splits prod.splits)
  show "import_roles conn c = Inr conn' \<Longrightarrow> character_tables conn' = character_tables conn"
    using execute_each_preserves[of insert_role_auto character_tables, OF a]
          execute_each_preserves[of insert_role_joinable character_tables, OF j]
    by (auto simp: import_roles_def split: sum.splits) 
qed

lemma insert_event_frame:
  "insert_event ext conn creator name start active description server joinable slots status
     = Inr (conn', eid) \<Longrightarrow>
   character_tables conn' = character_tables conn"
  by (auto simp: insert_event_def character_tables_def Let_def split: if_splits)

lemma migrate_events_frame:
  "migrate_events ext c conn subs parts rows = Inr (conn', subs', parts') \<Longrightarrow>
   character_tables conn' = character_tables conn"
proof (induction rows arbitrary: conn subs parts)
  case Nil
  then show ?case by simp
next
  case (Cons row rows)
  from Cons.prems obtain conn1 eid where
    st: "migrate_event ext conn row = Inr (conn1, eid)" and
    rest: "migrate_events ext c conn1 (subs @ select_event_subscribers c eid (le_id row))
             (parts @ select_event_participants c eid (le_id row)) rows = Inr (conn', subs', parts')"
    by (auto split: sum.splits)
  from st have "character_tables conn1 = character_tables conn"
    by (auto simp: migrate_event_def Let_def dest: insert_event_frame split: sum.splits)
  with Cons.IH[OF rest] show ?case by simp
qed

lemma import_events_frame:
  "import_events ext conn c = Inr conn' \<Longrightarrow> character_tables conn' = character_tables conn"
proof -
  have s: "\<And>conn row conn'. insert_event_subscriber conn row = Inr conn' \<Longrightarrow>
             character_tables conn' = character_tables conn"
    by (auto simp: insert_event_subscriber_def character_tables_def split: if_splits prod.splits)
  have p: "\<And>conn row conn'. migrate_event_participant conn row = Inr conn' \<Longrightarrow>
             character_tables conn' = character_tables conn"
    by (auto simp: migrate_event_participant_def insert_event_participant_def character_tables_def
             split: if_splits prod.splits option.splits)
  show "import_events ext conn c = Inr conn' \<Longrightarrow> character_tables conn' = character_tables conn"
    using execute_each_preserves[of insert_event_subscriber character_tables, OF s]
          execute_each_preserves[of migrate_event_participant character_tables, OF p]
    by (auto simp: import_events_def dest!: migrate_events_frame split: sum.splits)
qed

lemma import_characters_phases:
  assumes "import_characters ext conn c = Inr (conn', sd, sl)"
  obtains conn1 conn2 lus ds where
    "migrate_characters ext c conn [] [] (sort_key lc_id (chars c)) = Inr (conn1, lus, ds)"
    "migrate_deaths conn1 0 (sort_key ld_date ds) = Inr (conn2, sd)"
    "migrate_levelups conn2 0 (sort_key ll_date lus) = Inr (conn', sl)"
  using assms by (auto simp: import_characters_def split: sum.splits)

lemma death_exists_cong:
  "character_death conn' = character_death conn \<Longrightarrow> death_exists conn' = death_exists conn"
  by (simp add: death_exists_def fun_eq_iff)

lemma levelup_exists_cong:
  "character_levelup conn' = character_levelup conn \<Longrightarrow> levelup_exists conn' = levelup_exists conn"
  by (simp add: levelup_exists_def fun_eq_iff)

lemma name_ids_cong:
  "character conn' = character conn \<Longrightarrow> name_ids conn' = name_ids conn"
  by (simp add: name_ids_def)

lemma migrated_cong:
  assumes "character_tables conn' = character_tables conn"
  shows "migrated conn' c = migrated conn c"
proof -
  from assms have "character conn' = character conn"
    "character_death conn' = character_death conn"
    "character_levelup conn' = character_levelup conn"
    by (simp_all add: character_tables_def)
  then have "name_ids conn' = name_ids conn" "death_exists conn' = death_exists conn"
    "levelup_exists conn' = levelup_exists conn"
    by (simp_all add: name_ids_def death_exists_def levelup_exists_def fun_eq_iff)
  then show ?thesis
    unfolding migrated_def by (simp only:)
qed

lemma case_sum_False_iff:
  "(case x of Inl e \<Rightarrow> False | Inr t \<Rightarrow> P t) \<longleftrightarrow> (\<exists>t. x = Inr t \<and> P t)"
  by (cases x) auto

lemma import_characters_migrated:
  assumes "import_characters ext conn c = Inr (conn', sd, sl)"
  shows "migrated conn' c"
  using assms
proof (cases rule: import_characters_phases)
  case (1 conn1 conn2 lus ds)
  note ch = migrate_characters_collect[OF 1(1)]
  note de = migrate_deaths_mono[OF 1(2)]
  note lu = migrate_levelups_mono[OF 1(3)]
  have ids: "name_ids conn' = name_ids conn1"
    using de lu by (simp add: name_ids_def)
  have a: "\<forall>row \<in> set (sort_key lc_id (chars c)). lc_name row \<in> fst ` set (name_ids conn') \<and>
            in_int64 (lc_user_id row) \<and> opt_in_int16 (lc_level row)"
    using ch ids by simp
  have "character_death conn' = character_death conn2"
    using lu by simp
  then have dex: "death_exists conn' = death_exists conn2"
    by (rule death_exists_cong)
  have b: "\<forall>d \<in> set (collect_deaths c (name_ids conn') (sort_key lc_id (chars c))).
            case utcfromtimestamp (ld_date d) of
              Inl e \<Rightarrow> False
            | Inr t \<Rightarrow> death_exists conn' t (ld_char_id d)"
    using ch de ids dex by (simp add: case_sum_False_iff)
  have c: "\<forall>l \<in> set (collect_levelups c (name_ids conn') (sort_key lc_id (chars c))).
            case utcfromtimestamp (ll_date l) of
              Inl e \<Rightarrow> False
            | Inr t \<Rightarrow> levelup_exists conn' (ll_char_id l) t"
    using ch lu ids by (simp add: case_sum_False_iff)
  show ?thesis using a b c by (simp add: migrated_def)
qed

lemma import_characters_rerun:
  assumes "migrated conn c"
  shows "\<exists>conn'. import_characters ext conn c =
             Inr (conn', length (collect_deaths c (name_ids conn) (sort_key lc_id (chars c))),
                  length (collect_levelups c (name_ids conn) (sort_key lc_id (chars c)))) \<and>
           strip_modified conn' = strip_modified conn \<and>
           character_death conn' = character_death conn \<and>
           character_death_killer conn' = character_death_killer conn \<and>
           character_levelup conn' = character_levelup conn"
proof -
  let ?rows = "sort_key lc_id (chars c)"
  let ?ds = "collect_deaths c (name_ids conn) ?rows"
  let ?ls = "collect_levelups c (name_ids conn) ?rows"
  from assms have a: "\<forall>row \<in> set ?rows. lc_name row \<in> fst ` set (name_ids conn) \<and>
             in_int64 (lc_user_id row) \<and> opt_in_int16 (lc_level row)"
    by (simp add: migrated_def Let_def)
  from migrate_characters_existing[OF a, of ext c "[]" "[]"] obtain conn1 where
    m1: "migrate_characters ext c conn [] [] ?rows = Inr (conn1, ?ls, ?ds)" and
    st: "strip_modified conn1 = strip_modified conn" and
    fr: "character_death conn1 = character_death conn"
        "character_death_killer conn1 = character_death_killer conn"
        "character_levelup conn1 = character_levelup conn"
    by auto
  from assms have "\<forall>d \<in> set (sort_key ld_date ?ds).
      \<exists>t. utcfromtimestamp (ld_date d) = Inr t \<and> death_exists conn1 t (ld_char_id d)"
    by (simp add: migrated_def Let_def death_exists_cong[OF fr(1)] case_sum_False_iff)
  from migrate_deaths_all_exist[OF this, of 0]
  have m2: "migrate_deaths conn1 0 (sort_key ld_date ?ds) = Inr (conn1, length ?ds)" by simp
  from assms have "\<forall>l \<in> set (sort_key ll_date ?ls).
      \<exists>t. utcfromtimestamp (ll_date l) = Inr t \<and> levelup_exists conn1 (ll_char_id l) t"
    by (simp add: migrated_def Let_def levelup_exists_cong[OF fr(3)] case_sum_False_iff)
  from migrate_levelups_all_exist[OF this, of 0]
  have m3: "migrate_levelups conn1 0 (sort_key ll_date ?ls) = Inr (conn1, length ?ls)" by simp
  show ?thesis
    using m1 m2 m3 st fr by (simp add: import_characters_def)
qed

lemma import_legacy_db_phases:
  assumes "import_legacy_db ext conn c = Inr (conn', sd, sl)"
  obtains conn1 where
    "import_characters ext conn c = Inr (conn1, sd, sl)"
    "character_tables conn' = character_tables conn1"
proof -
  from assms obtain conn1 conn2 conn3 where
    1: "import_characters ext conn c = Inr (conn1, sd, sl)" and
    2: "import_server_properties ext conn1 c = Inr conn2" and
    3: "import_roles conn2 c = Inr conn3" and
    4: "import_events ext conn3 c = Inr conn'"
    by (auto simp: import_legacy_db_def split: sum.splits)
  from import_server_properties_frame[OF 2] import_roles_frame[OF 3] import_events_frame[OF 4]
  have "character_tables conn' = character_tables conn1" by simp
  with 1 that show ?thesis by blast
qed

lemma sum_list_insort_key:
  "sum_list (map g (insort_key f x xs)) = (g x :: nat) + sum_list (map g xs)"
  by (induction xs) auto

lemma sum_list_sort_key:
  "sum_list (map g (sort_key f xs)) = (sum_list (map g xs) :: nat)"
  by (induction xs) (auto simp: sum_list_insort_key)

lemma length_collect_deaths:
  "\<forall>row \<in> set rows. lc_name row \<in> fst ` set ids \<Longrightarrow>
   length (collect_deaths c ids rows) =
   sum_list (map (\<lambda>row. length (filter (\<lambda>d. ld_char_id d = lc_id row) (char_deaths c))) rows)"
proof (induction rows)
  case Nil
  then show ?case by (simp add: collect_deaths_def)
next
  case (Cons row rows)
  then have "map_of ids (lc_name row) \<noteq> None"
    by (simp add: map_of_eq_None_iff)
  then obtain i where "map_of ids (lc_name row) = Some i"
    by auto
  with Cons show ?case
    by (simp add: collect_deaths_def select_deaths_def)
qed

lemma length_collect_levelups:
  "\<forall>row \<in> set rows. lc_name row \<in> fst ` set ids \<Longrightarrow>
   length (collect_levelups c ids rows) =
   sum_list (map (\<lambda>row. length (filter (\<lambda>l. ll_char_id l = lc_id row) (char_levelups c))) rows)"
proof (induction rows)
  case Nil
  then show ?case by (simp add: collect_levelups_def)
next
  case (Cons row rows)
  then have "map_of ids (lc_name row) \<noteq> None"
    by (simp add: map_of_eq_None_iff)
  then obtain i where "map_of ids (lc_name row) = Some i"
    by auto
  with Cons show ?case
    by (simp add: collect_levelups_def select_levelups_def)
qed

lemma migrated_counts:
  assumes "migrated conn c"
  shows "length (collect_deaths c (name_ids conn) (sort_key lc_id (chars c))) = legacy_death_count c"
    and "length (collect_levelups c (name_ids conn) (sort_key lc_id (chars c))) = legacy_levelup_count c"
proof -
  from assms have a: "\<forall>row \<in> set (sort_key lc_id (chars c)). lc_name row \<in> fst ` set (name_ids conn)"
    by (simp add: migrated_def Let_def)
  show "length (collect_deaths c (name_ids conn) (sort_key lc_id (chars c))) = legacy_death_count c"
    by (simp only: length_collect_deaths[OF a] sum_list_sort_key legacy_death_count_def)
  show "length (collect_levelups c (name_ids conn) (sort_key lc_id (chars c))) = legacy_levelup_count c"
    by (simp only: length_collect_levelups[OF a] sum_list_sort_key legacy_levelup_count_def)
qed

lemma strip_modified_cong:
  "character conn' = character conn \<Longrightarrow> strip_modified conn' = strip_modified conn"
  by (simp add: strip_modified_def)

subsection \<open>Idempotence of the import\<close>

text \<open>
  Claim C1. After a complete run of \<open>import_legacy_db\<close> has produced the store
  \<open>db1\<close>, a second run against the same legacy store adds no \<open>character\<close>,
  \<open>character_death\<close> or \<open>character_levelup\<close> row (nor a killer row). The character
  stage of the second run always completes: every upsert meets its name conflict, which
  leaves the rows as they were up to \<open>modified\<close>, every collected death meets the
  exact \<open>(character_id, date)\<close> check and every collected level-up the 15-second
  check, so both counters equal the number of collected records. Whenever the whole
  second run completes, its final store has the same three tables.
\<close>

theorem import_legacy_db_idempotent:
  assumes "import_legacy_db ext conn c = Inr (db1, sd, sl)"
  shows "(\<exists>db1'. import_characters ext' db1 c =
                    Inr (db1', legacy_death_count c, legacy_levelup_count c) \<and>
                 strip_modified db1' = strip_modified db1 \<and>
                 character_death db1' = character_death db1 \<and>
                 character_death_killer db1' = character_death_killer db1 \<and>
                 character_levelup db1' = character_levelup db1) \<and>
         (\<forall>db2 sd2 sl2. import_legacy_db ext' db1 c = Inr (db2, sd2, sl2) \<longrightarrow>
            length (character db2) = length (character db1) \<and>
            strip_modified db2 = strip_modified db1 \<and>
            character_death db2 = character_death db1 \<and>
            character_death_killer db2 = character_death_killer db1 \<and>
            character_levelup db2 = character_levelup db1 \<and>
            sd2 = legacy_death_count c \<and> sl2 = legacy_levelup_count c)"
proof -
  from assms obtain conn1 where
    r1: "import_characters ext conn c = Inr (conn1, sd, sl)" and
    t1: "character_tables db1 = character_tables conn1"
    by (rule import_legacy_db_phases)
  have mig: "migrated db1 c"
    using import_characters_migrated[OF r1] migrated_cong[OF t1] by simp
  from import_characters_rerun[OF mig, of ext'] migrated_counts[OF mig]
  obtain db1' where
    r2: "import_characters ext' db1 c = Inr (db1', legacy_death_count c, legacy_levelup_count c)" and
    fr: "strip_modified db1' = strip_modified db1"
        "character_death db1' = character_death db1"
        "character_death_killer db1' = character_death_killer db1"
        "character_levelup db1' = character_levelup db1"
    by auto
  have second: "length (character db2) = length (character db1) \<and>
            strip_modified db2 = strip_modified db1 \<and>
            character_death db2 = character_death db1 \<and>
            character_death_killer db2 = character_death_killer db1 \<and>
            character_levelup db2 = character_levelup db1 \<and>
            sd2 = legacy_death_count c \<and> sl2 = legacy_levelup_count c"
    if run2: "import_legacy_db ext' db1 c = Inr (db2, sd2, sl2)" for db2 sd2 sl2
  proof -
    from run2 obtain conn2 where
      r3: "import_characters ext' db1 c = Inr (conn2, sd2, sl2)" and
      t2: "character_tables db2 = character_tables conn2"
      by (rule import_legacy_db_phases)
    from r2 r3 have eq: "conn2 = db1'" "sd2 = legacy_death_count c" "sl2 = legacy_levelup_count c"
      by simp_all
    from t2 eq(1) have tabs: "character db2 = character db1'"
      "character_death db2 = character_death db1'"
      "character_death_killer db2 = character_death_killer db1'"
      "character_levelup db2 = character_levelup db1'"
      by (simp_all add: character_tables_def)
    have st: "strip_modified db2 = strip_modified db1"
      using strip_modified_cong[OF tabs(1)] fr(1) by simp
    then have "length (strip_modified db2) = length (strip_modified db1)" by simp
    then have len: "length (character db2) = length (character db1)"
      by (simp add: strip_modified_def)
    show ?thesis using st len tabs fr eq by simp
  qed
  show ?thesis using r2 fr second by blast
qed

lemma demo_first_run: "import_legacy_db ext0 db0 legacy_demo = Inr (db_demo, 1, 1)"
  by code_simp

lemma demo_second_run: "import_legacy_db ext0 db_demo legacy_demo = Inr (db_demo_again, 3, 4)"
  by code_simp

theorem import_legacy_db_idempotent_witness:
  "import_legacy_db ext0 db0 legacy_demo = Inr (db_demo, 1, 1) \<and>
   import_legacy_db ext0 db_demo legacy_demo = Inr (db_demo_again, 3, 4) \<and>
   length (character db_demo_again) = length (character db_demo) \<and>
   strip_modified db_demo_again = strip_modified db_demo \<and>
   character_death db_demo_again = character_death db_demo \<and>
   character_death_killer db_demo_again = character_death_killer db_demo \<and>
   character_levelup db_demo_again = character_levelup db_demo \<and>
   legacy_death_count legacy_demo = 3 \<and> legacy_levelup_count legacy_demo = 4"
  using import_legacy_db_idempotent[OF demo_first_run, of ext0] demo_first_run demo_second_run
  by simp

subsection \<open>Events\<close>

lemma migrate_event_reminder:
  "migrate_event ext conn row = Inr (conn', eid) \<Longrightarrow>
   map ev_reminder (event conn') = map ev_reminder (event conn) @ [4 - le_status row]"
  by (auto simp: migrate_event_def insert_event_def Let_def split: sum.splits if_splits)

lemma migrate_events_reminder:
  "migrate_events ext c conn subs parts rows = Inr (conn', subs', parts') \<Longrightarrow>
   map ev_reminder (event conn') =
   map ev_reminder (event conn) @ map (\<lambda>e. 4 - le_status e) rows"
proof (induction rows arbitrary: conn subs parts)
  case Nil
  then show ?case by simp
next
  case (Cons row rows)
  from Cons.prems obtain conn1 eid where
    st: "migrate_event ext conn row = Inr (conn1, eid)" and
    rest: "migrate_events ext c conn1 (subs @ select_event_subscribers c eid (le_id row))
             (parts @ select_event_participants c eid (le_id row)) rows = Inr (conn', subs', parts')"
    by (auto split: sum.splits)
  show ?case
    using Cons.IH[OF rest] migrate_event_reminder[OF st] by simp
qed

lemma insert_event_subscriber_event:
  "insert_event_subscriber conn row = Inr conn' \<Longrightarrow> event conn' = event conn"
  by (auto simp: insert_event_subscriber_def split: if_splits prod.splits)

lemma migrate_event_participant_event:
  "migrate_event_participant conn row = Inr conn' \<Longrightarrow> event conn' = event conn"
  by (auto simp: migrate_event_participant_def insert_event_participant_def
           split: if_splits prod.splits option.splits)

text \<open>
  Claim C6. The events a complete \<open>import_events\<close> adds are one per legacy event, in
  order, and the \<open>reminder\<close> of each is 4 minus the legacy \<open>status\<close>.
\<close>

theorem import_events_reminder:
  assumes "import_events ext conn c = Inr conn'"
  shows "map ev_reminder (event conn') =
         map ev_reminder (event conn) @ map (\<lambda>e. 4 - le_status e) (events c)"
proof -
  from assms obtain conn1 subs parts conn2 where
    1: "migrate_events ext c conn [] [] (events c) = Inr (conn1, subs, parts)" and
    2: "execute_each insert_event_subscriber conn1 subs = Inr conn2" and
    3: "execute_each migrate_event_participant conn2 parts = Inr conn'"
    by (auto simp: import_events_def split: sum.splits)
  have "event conn2 = event conn1"
    by (rule execute_each_preserves[where f = event, OF insert_event_subscriber_event 2])
  moreover have "event conn' = event conn2"
    by (rule execute_each_preserves[where f = event, OF migrate_event_participant_event 3])
  ultimately show ?thesis using migrate_events_reminder[OF 1] by simp
qed

lemma events_demo_run: "import_events ext0 db0 legacy_events_demo = Inr db_events_demo"
  by code_simp

theorem import_events_reminder_witness:
  "import_events ext0 db0 legacy_events_demo = Inr db_events_demo \<and>
   map le_status (events legacy_events_demo) = [1, 4] \<and>
   map ev_reminder (event db_events_demo) = [3, 0]"
  using import_events_reminder[OF events_demo_run] events_demo_run
  by (simp add: db0_def legacy_events_demo_def legacy_event0_def)

subsection \<open>Server properties\<close>




lemma json_strings_map: "json_strings (map JString ps) = Some ps"
  by (induction ps) auto

lemma migrate_server_property_no_prefixes:
  "migrate_server_property ext conn row = Inr conn' \<Longrightarrow>
   filter is_prefixes (server_property conn') = filter is_prefixes (server_property conn)"
  by (auto simp: migrate_server_property_def insert_server_property_def is_prefixes_def
           dest!: insert_server_prefixes_frame
           split: sum.splits if_splits)

text \<open>
  Claim C8. A legacy property named \<open>prefixes\<close> whose value parses to a JSON array of
  strings adds the row of the server and that list, in order, to \<open>server_prefixes\<close>,
  unless the server already has a row there, in which case nothing changes; and a
  complete \<open>import_server_properties\<close> adds no \<open>server_property\<close> row whose key is
  \<open>prefixes\<close>.
\<close>

theorem prefixes_go_to_server_prefixes:
  "(lp_name row = ''prefixes'' \<and> py_int ext (lp_server_id row) = Inr server \<and>
    in_int64 server \<and> py_json_loads ext (lp_value row) = Inr (JArray (map JString ps)) \<longrightarrow>
      migrate_server_property ext conn row =
        Inr (if server \<in> fst ` set (server_prefixes conn) then conn
             else conn\<lparr>server_prefixes := server_prefixes conn @ [(server, ps)]\<rparr>)) \<and>
   (import_server_properties ext conn c = Inr conn' \<longrightarrow>
      filter is_prefixes (server_property conn') = filter is_prefixes (server_property conn))"
proof -
  have "filter is_prefixes (server_property conn') = filter is_prefixes (server_property conn)"
    if "import_server_properties ext conn c = Inr conn'"
    using that migrate_server_properties_preserves[
              where f = "\<lambda>d. filter is_prefixes (server_property d)" and ext = ext,
              OF migrate_server_property_no_prefixes]
    by (simp add: import_server_properties_def)
  then show ?thesis
    by (auto simp: migrate_server_property_def insert_server_prefixes_def json_strings_map)
qed

lemma prefixes_demo_run:
  "import_server_properties ext0 db0 legacy_prefixes_demo =
     Inr (db0\<lparr>server_prefixes := [(42, [''!'', ''.''])]\<rparr>)"
  by code_simp

theorem prefixes_go_to_server_prefixes_witness:
  \<open>lp_name (hd (server_properties legacy_prefixes_demo)) = ''prefixes'' \<and>
   lp_value (hd (server_properties legacy_prefixes_demo)) = LText ''["!","."]'' \<and>
   py_int ext0 (lp_server_id (hd (server_properties legacy_prefixes_demo))) = Inr 42 \<and>
   in_int64 42 \<and>
   py_json_loads ext0 (lp_value (hd (server_properties legacy_prefixes_demo))) =
     Inr (JArray (map JString [''!'', ''.''])) \<and>
   migrate_server_property ext0 db0 (hd (server_properties legacy_prefixes_demo)) =
     Inr (db0\<lparr>server_prefixes := [(42, [''!'', ''.''])]\<rparr>) \<and>
   import_server_properties ext0 db0 legacy_prefixes_demo =
     Inr (db0\<lparr>server_prefixes := [(42, [''!'', ''.''])]\<rparr>) \<and>
   server_property (db0\<lparr>server_prefixes := [(42, [''!'', ''.''])]\<rparr>) = []\<close>
  using prefixes_go_to_server_prefixes[of "hd (server_properties legacy_prefixes_demo)" ext0 42
          "[''!'', ''.'']" db0 legacy_prefixes_demo "db0\<lparr>server_prefixes := [(42, [''!'', ''.''])]\<rparr>"]
        prefixes_demo_run
  by (simp add: legacy_prefixes_demo_def legacy0_def ext0_def db0_def in_int64_def)

subsection \<open>Event participants\<close>

lemma migrate_event_participant_character:
  "migrate_event_participant conn row = Inr conn' \<Longrightarrow> character conn' = character conn"
  by (auto simp: migrate_event_participant_def insert_event_participant_def
           split: if_splits prod.splits option.splits)

lemma select_character_id_cong:
  "character conn' = character conn \<Longrightarrow>
   select_character_id conn' name = select_character_id conn name"
  by (cases name) (simp_all add: select_character_id_def)

text \<open>
  The lookup against the table: it returns nothing exactly for a null name and for a
  name no row has.
\<close>

lemma select_character_id_None_iff:
  "select_character_id conn name = None \<longleftrightarrow>
     name = None \<or> (\<exists>n. name = Some n \<and> n \<notin> ch_name ` set (character conn))"
  by (cases name) (simp_all add: select_character_id_def find_None_names)

lemma find_distinct_key:
  "distinct (map f xs) \<Longrightarrow> x \<in> set xs \<Longrightarrow> find (\<lambda>r. f r = f x) xs = Some x"
  by (induction xs) auto

lemma resolves_iff: "resolves conn row \<longleftrightarrow> select_character_id conn (snd row) \<noteq> None"
  by (cases "snd row") (simp_all add: resolves_def select_character_id_None_iff)

lemma resolves_cong: "character conn' = character conn \<Longrightarrow> resolves conn' = resolves conn"
  by (auto simp: resolves_def fun_eq_iff split: option.splits)

lemma migrate_event_participant_unresolved:
  "\<not> resolves conn row \<Longrightarrow> migrate_event_participant conn row = Inr conn"
  by (cases row) (simp add: resolves_iff migrate_event_participant_def)

lemma execute_participants_filter:
  "execute_each migrate_event_participant conn rows =
   execute_each migrate_event_participant conn (filter (resolves conn) rows)"
proof (induction rows arbitrary: conn)
  case Nil
  then show ?case by simp
next
  case (Cons row rows)
  show ?case
  proof (cases "resolves conn row")
    case False
    then show ?thesis
      using Cons.IH[of conn] by (simp add: migrate_event_participant_unresolved)
  next
    case True
    show ?thesis
    proof (cases "migrate_event_participant conn row")
      case (Inl e)
      then show ?thesis using True by simp
    next
      case (Inr conn1)
      from resolves_cong[OF migrate_event_participant_character[OF Inr]]
      have "filter (resolves conn1) rows = filter (resolves conn) rows" by simp
      then show ?thesis using True Inr Cons.IH[of conn1] by simp
    qed
  qed
qed

text \<open>
  Claim C7. A collected participant whose name is null, or is the name of no row of the
  \<open>character\<close> table, is passed over: the store is returned unchanged and nothing is
  raised, so the whole loop does what it does on the participants whose name is in the
  table. A participant whose name is in the table is inserted under the identifier of
  the first row with that name, which is any row with that name when names are
  distinct, with conflict-skip on \<open>(event_id, character_id)\<close>: nothing changes when
  the pair is present, and otherwise the pair is appended when the event exists.
\<close>

theorem orphan_participants_dropped:
  "((name = None \<or> (\<exists>n. name = Some n \<and> n \<notin> ch_name ` set (character conn))) \<longrightarrow>
      migrate_event_participant conn (event_id, name) = Inr conn) \<and>
   execute_each migrate_event_participant conn rows =
     execute_each migrate_event_participant conn (filter (resolves conn) rows) \<and>
   (i < length (character conn) \<and> ch_name (character conn ! i) = n \<and>
    (\<forall>j < i. ch_name (character conn ! j) \<noteq> n) \<longrightarrow>
      migrate_event_participant conn (event_id, Some n) =
        (if (event_id, ch_id (character conn ! i)) \<in> set (event_participant conn) then Inr conn
         else if event_id \<notin> ev_id ` set (event conn)
         then Inl (ForeignKeyViolationError, conn)
         else Inr (conn\<lparr>event_participant := event_participant conn @
                          [(event_id, ch_id (character conn ! i))]\<rparr>))) \<and>
   (distinct (map ch_name (character conn)) \<and> r \<in> set (character conn) \<longrightarrow>
      migrate_event_participant conn (event_id, Some (ch_name r)) =
        (if (event_id, ch_id r) \<in> set (event_participant conn) then Inr conn
         else if event_id \<notin> ev_id ` set (event conn)
         then Inl (ForeignKeyViolationError, conn)
         else Inr (conn\<lparr>event_participant := event_participant conn @
                          [(event_id, ch_id r)]\<rparr>)))"
proof -
  have a: "migrate_event_participant conn (event_id, name) = Inr conn"
    if "name = None \<or> (\<exists>n. name = Some n \<and> n \<notin> ch_name ` set (character conn))"
  proof (cases name)
    case None
    then show ?thesis
      by (simp add: migrate_event_participant_def select_character_id_def)
  next
    case (Some m)
    with that have "m \<notin> ch_name ` set (character conn)" by simp
    then have "find (\<lambda>r. ch_name r = m) (character conn) = None"
      by (simp add: find_None_names)
    with Some show ?thesis
      by (simp add: migrate_event_participant_def select_character_id_def)
  qed
  have b: "execute_each migrate_event_participant conn rows =
     execute_each migrate_event_participant conn (filter (resolves conn) rows)"
    by (rule execute_participants_filter)
  have c: "migrate_event_participant conn (event_id, Some n) =
        (if (event_id, ch_id (character conn ! i)) \<in> set (event_participant conn) then Inr conn
         else if event_id \<notin> ev_id ` set (event conn)
         then Inl (ForeignKeyViolationError, conn)
         else Inr (conn\<lparr>event_participant := event_participant conn @
                          [(event_id, ch_id (character conn ! i))]\<rparr>))"
    if "i < length (character conn)" "ch_name (character conn ! i) = n"
       "\<forall>j < i. ch_name (character conn ! j) \<noteq> n"
  proof -
    from that have "find (\<lambda>r. ch_name r = n) (character conn) = Some (character conn ! i)"
      unfolding find_Some_iff by blast
    moreover from that(1) have "ch_id (character conn ! i) \<in> ch_id ` set (character conn)"
      by simp
    ultimately show ?thesis
      by (simp add: migrate_event_participant_def select_character_id_def
                    insert_event_participant_def)
  qed
  have d: "migrate_event_participant conn (event_id, Some (ch_name r)) =
        (if (event_id, ch_id r) \<in> set (event_participant conn) then Inr conn
         else if event_id \<notin> ev_id ` set (event conn)
         then Inl (ForeignKeyViolationError, conn)
         else Inr (conn\<lparr>event_participant := event_participant conn @
                          [(event_id, ch_id r)]\<rparr>))"
    if "distinct (map ch_name (character conn))" "r \<in> set (character conn)"
  proof -
    from find_distinct_key[OF that]
    have "find (\<lambda>x. ch_name x = ch_name r) (character conn) = Some r" .
    moreover from that(2) have "ch_id r \<in> ch_id ` set (character conn)" by simp
    ultimately show ?thesis
      by (simp add: migrate_event_participant_def select_character_id_def
                    insert_event_participant_def)
  qed
  show ?thesis
  proof (intro conjI impI)
    assume "name = None \<or> (\<exists>n. name = Some n \<and> n \<notin> ch_name ` set (character conn))"
    then show "migrate_event_participant conn (event_id, name) = Inr conn" by (rule a)
  next
    show "execute_each migrate_event_participant conn rows =
     execute_each migrate_event_participant conn (filter (resolves conn) rows)" by (rule b)
  next
    assume "i < length (character conn) \<and> ch_name (character conn ! i) = n \<and>
      (\<forall>j < i. ch_name (character conn ! j) \<noteq> n)"
    then show "migrate_event_participant conn (event_id, Some n) =
        (if (event_id, ch_id (character conn ! i)) \<in> set (event_participant conn) then Inr conn
         else if event_id \<notin> ev_id ` set (event conn)
         then Inl (ForeignKeyViolationError, conn)
         else Inr (conn\<lparr>event_participant := event_participant conn @
                          [(event_id, ch_id (character conn ! i))]\<rparr>))"
      using c by blast
  next
    assume "distinct (map ch_name (character conn)) \<and> r \<in> set (character conn)"
    then show "migrate_event_participant conn (event_id, Some (ch_name r)) =
        (if (event_id, ch_id r) \<in> set (event_participant conn) then Inr conn
         else if event_id \<notin> ev_id ` set (event conn)
         then Inl (ForeignKeyViolationError, conn)
         else Inr (conn\<lparr>event_participant := event_participant conn @
                          [(event_id, ch_id r)]\<rparr>))"
      using d by blast
  qed
qed

lemma orphan_demo_table:
  "character db_orphan_events =
     [\<lparr>ch_id = 6, ch_user_id = 11, ch_name = ''Zed'', ch_level = Some 9,
       ch_world = None, ch_vocation = None, ch_guild = None, ch_modified = None,
       ch_created = None\<rparr>,
      \<lparr>ch_id = 7, ch_user_id = 10, ch_name = ''Alice'', ch_level = Some 50,
       ch_world = None, ch_vocation = None, ch_guild = None, ch_modified = None,
       ch_created = None\<rparr>]"
  "event_participant db_orphan_events = []"
  "ev_id ` set (event db_orphan_events) = {1}"
  by (simp_all add: db_orphan_events_def db_orphan_demo_def db0_def)

theorem orphan_participants_dropped_witness:
  "map ch_name (character db_orphan_events) = [''Zed'', ''Alice''] \<and>
   ''Carol'' \<notin> ch_name ` set (character db_orphan_events) \<and>
   migrate_event_participant db_orphan_events (1, Some ''Carol'') = Inr db_orphan_events \<and>
   migrate_event_participant db_orphan_events (1, None) = Inr db_orphan_events \<and>
   filter (resolves db_orphan_events) [(1, Some ''Alice''), (1, None), (1, Some ''Carol'')] =
     [(1, Some ''Alice'')] \<and>
   execute_each migrate_event_participant db_orphan_events
     (filter (resolves db_orphan_events) [(1, Some ''Alice''), (1, None), (1, Some ''Carol'')]) =
     Inr (db_orphan_events\<lparr>event_participant := [(1, 7)]\<rparr>) \<and>
   1 < length (character db_orphan_events) \<and>
   ch_name (character db_orphan_events ! 1) = ''Alice'' \<and>
   ch_name (character db_orphan_events ! 0) \<noteq> ''Alice'' \<and>
   ch_id (character db_orphan_events ! 1) = 7 \<and>
   distinct (map ch_name (character db_orphan_events)) \<and>
   character db_orphan_events ! 1 \<in> set (character db_orphan_events) \<and>
   migrate_event_participant db_orphan_events (1, Some ''Alice'') =
     Inr (db_orphan_events\<lparr>event_participant := [(1, 7)]\<rparr>) \<and>
   import_events ext0 db_orphan_demo legacy_orphan_demo =
     Inr (db_orphan_events\<lparr>event_participant := [(1, 7)]\<rparr>)"
proof -
  let ?rows = "[(1, Some ''Alice''), (1, None), (1, Some ''Carol'')] :: (int \<times> string option) list"
  let ?alice = "character db_orphan_events ! 1"
  note carol_inst = orphan_participants_dropped[where conn = db_orphan_events
      and name = "Some ''Carol''" and event_id = 1 and rows = ?rows and i = 1 and n = "''Alice''"
      and r = ?alice]
  note null_inst = orphan_participants_dropped[where conn = db_orphan_events
      and name = None and event_id = 1 and rows = "[]" and i = 1 and n = "''Alice''"
      and r = ?alice]
  have run: "import_events ext0 db_orphan_demo legacy_orphan_demo =
     Inr (db_orphan_events\<lparr>event_participant := [(1, 7)]\<rparr>)"
    by code_simp
  have all_rows: "execute_each migrate_event_participant db_orphan_events ?rows =
     Inr (db_orphan_events\<lparr>event_participant := [(1, 7)]\<rparr>)"
    by code_simp
  have names: "map ch_name (character db_orphan_events) = [''Zed'', ''Alice'']"
    by (simp add: orphan_demo_table)
  have carol: "''Carol'' \<notin> ch_name ` set (character db_orphan_events)"
    by (simp add: orphan_demo_table)
  have dropped: "migrate_event_participant db_orphan_events (1, Some ''Carol'') = Inr db_orphan_events"
    using carol_inst carol by blast
  have null: "migrate_event_participant db_orphan_events (1, None) = Inr db_orphan_events"
    using null_inst by blast
  have kept: "filter (resolves db_orphan_events) ?rows = [(1, Some ''Alice'')]"
    by (simp add: resolves_def orphan_demo_table)
  have loop: "execute_each migrate_event_participant db_orphan_events
     (filter (resolves db_orphan_events) ?rows) =
     Inr (db_orphan_events\<lparr>event_participant := [(1, 7)]\<rparr>)"
    by (simp only: carol_inst[THEN conjunct2, THEN conjunct1, symmetric] all_rows)
  have first: "1 < length (character db_orphan_events)"
    "ch_name ?alice = ''Alice''"
    "ch_name (character db_orphan_events ! 0) \<noteq> ''Alice''"
    "ch_id ?alice = 7"
    by (simp_all add: orphan_demo_table)
  have before: "\<forall>j < 1. ch_name (character db_orphan_events ! j) \<noteq> ''Alice''"
    using first(3) by simp
  have uniq: "distinct (map ch_name (character db_orphan_events))"
    "?alice \<in> set (character db_orphan_events)"
    by (simp_all add: orphan_demo_table)
  from carol_inst first(1,2) before have by_index:
    "migrate_event_participant db_orphan_events (1, Some ''Alice'') =
        (if (1, ch_id ?alice) \<in> set (event_participant db_orphan_events)
         then Inr db_orphan_events
         else if 1 \<notin> ev_id ` set (event db_orphan_events)
         then Inl (ForeignKeyViolationError, db_orphan_events)
         else Inr (db_orphan_events\<lparr>event_participant :=
                     event_participant db_orphan_events @ [(1, ch_id ?alice)]\<rparr>))"
    by blast
  from carol_inst uniq have by_row:
    "migrate_event_participant db_orphan_events (1, Some (ch_name ?alice)) =
        (if (1, ch_id ?alice) \<in> set (event_participant db_orphan_events)
         then Inr db_orphan_events
         else if 1 \<notin> ev_id ` set (event db_orphan_events)
         then Inl (ForeignKeyViolationError, db_orphan_events)
         else Inr (db_orphan_events\<lparr>event_participant :=
                     event_participant db_orphan_events @ [(1, ch_id ?alice)]\<rparr>))"
    by blast
  have inserted: "migrate_event_participant db_orphan_events (1, Some ''Alice'') =
     Inr (db_orphan_events\<lparr>event_participant := [(1, 7)]\<rparr>)"
    using by_index by_row first(4) by (simp add: orphan_demo_table(2,3))
  show ?thesis
    using names carol dropped null kept loop first uniq inserted run by blast
qed

subsection \<open>Level-up deduplication\<close>

lemma levelup_exists_iff:
  "levelup_exists conn char_id date \<longleftrightarrow>
     (\<exists>r \<in> set (character_levelup conn). lr_character_id r = char_id \<and>
        (\<exists>d. lr_date r = Some d \<and> max (date - d) (d - date) \<le> 15))"
  by (auto simp: levelup_exists_def split: option.splits)

text \<open>
  Claim C4. A level-up whose timestamp converts is skipped, the store unchanged and
  the counter one higher, exactly when a stored level-up of the same character has a
  date \<open>d\<close> with \<open>max (date - d) (d - date) \<le> 15\<close>; a level-up that is not skipped and
  raises nothing appends exactly one row with its character, level and date and leaves
  the counter. Imported into the empty store, level-ups of one character at 0 s and 10 s
  leave one row and one skip, level-ups at 0 s and 20 s leave two rows and no skip.
\<close>

theorem levelup_window_dedup:
  "(utcfromtimestamp (ll_date l) = Inr date \<longrightarrow>
      (migrate_levelup conn n l = Inr (conn, Suc n)) =
      (\<exists>r \<in> set (character_levelup conn). lr_character_id r = ll_char_id l \<and>
         (\<exists>d. lr_date r = Some d \<and> max (date - d) (d - date) \<le> 15))) \<and>
   (utcfromtimestamp (ll_date l) = Inr date \<and> \<not> levelup_exists conn (ll_char_id l) date \<and>
    migrate_levelup conn n l = Inr (conn', n') \<longrightarrow>
      n' = n \<and>
      character_levelup conn' = character_levelup conn @
        [\<lparr>lr_id = character_levelup_id_seq conn + 1, lr_character_id = ll_char_id l,
          lr_level = ll_level l, lr_date = Some date\<rparr>]) \<and>
   levelup_dates (import_characters ext0 db0 (legacy_levelups_demo 10)) = Some ([Some 0], 1) \<and>
   levelup_dates (import_characters ext0 db0 (legacy_levelups_demo 20)) =
     Some ([Some 0, Some 20], 0)"
proof -
  have a: "(migrate_levelup conn n l = Inr (conn, Suc n)) =
      (\<exists>r \<in> set (character_levelup conn). lr_character_id r = ll_char_id l \<and>
         (\<exists>d. lr_date r = Some d \<and> max (date - d) (d - date) \<le> 15))"
    if "utcfromtimestamp (ll_date l) = Inr date"
    using that
    by (auto simp: migrate_levelup_def insert_levelup_def Let_def levelup_exists_iff
             split: sum.splits if_splits)
  have b: "n' = n \<and>
      character_levelup conn' = character_levelup conn @
        [\<lparr>lr_id = character_levelup_id_seq conn + 1, lr_character_id = ll_char_id l,
          lr_level = ll_level l, lr_date = Some date\<rparr>]"
    if "utcfromtimestamp (ll_date l) = Inr date" "\<not> levelup_exists conn (ll_char_id l) date"
       "migrate_levelup conn n l = Inr (conn', n')"
    using that(3)
  proof (cases rule: migrate_levelup_cases)
    case (skipped t)
    with that show ?thesis by simp
  next
    case (inserted t)
    with that show ?thesis by simp
  qed
  have c: "levelup_dates (import_characters ext0 db0 (legacy_levelups_demo 10)) = Some ([Some 0], 1)"
    by code_simp
  have d: "levelup_dates (import_characters ext0 db0 (legacy_levelups_demo 20)) =
     Some ([Some 0, Some 20], 0)"
    by code_simp
  show ?thesis using a b c d by blast
qed

theorem levelup_window_dedup_witness:
  "utcfromtimestamp 115 = Inr 115 \<and>
   migrate_levelup db_levelup_demo 0 \<lparr>ll_char_id = 1, ll_level = Some 51, ll_date = 115\<rparr> =
     Inr (db_levelup_demo, 1) \<and>
   utcfromtimestamp 116 = Inr 116 \<and> \<not> levelup_exists db_levelup_demo 1 116 \<and>
   migrate_levelup db_levelup_demo 0 \<lparr>ll_char_id = 1, ll_level = Some 51, ll_date = 116\<rparr> =
     Inr (db_levelup_demo\<lparr>character_levelup_id_seq := 2,
            character_levelup := character_levelup db_levelup_demo @
              [\<lparr>lr_id = 2, lr_character_id = 1, lr_level = Some 51, lr_date = Some 116\<rparr>]\<rparr>, 0) \<and>
   character_levelup (db_levelup_demo\<lparr>character_levelup_id_seq := 2,
            character_levelup := character_levelup db_levelup_demo @
              [\<lparr>lr_id = 2, lr_character_id = 1, lr_level = Some 51, lr_date = Some 116\<rparr>]\<rparr>) =
     character_levelup db_levelup_demo @
       [\<lparr>lr_id = character_levelup_id_seq db_levelup_demo + 1, lr_character_id = 1,
         lr_level = Some 51, lr_date = Some 116\<rparr>]"
proof -
  let ?near = "\<lparr>ll_char_id = 1, ll_level = Some 51, ll_date = 115\<rparr>"
  let ?far = "\<lparr>ll_char_id = 1, ll_level = Some 51, ll_date = 116\<rparr>"
  let ?after = "db_levelup_demo\<lparr>character_levelup_id_seq := 2,
            character_levelup := character_levelup db_levelup_demo @
              [\<lparr>lr_id = 2, lr_character_id = 1, lr_level = Some 51, lr_date = Some 116\<rparr>]\<rparr>"
  have u1: "utcfromtimestamp (ll_date ?near) = Inr 115"
    by (simp add: utcfromtimestamp_def)
  have u2: "utcfromtimestamp (ll_date ?far) = Inr 116"
    by (simp add: utcfromtimestamp_def)
  have near: "\<exists>r \<in> set (character_levelup db_levelup_demo). lr_character_id r = ll_char_id ?near \<and>
         (\<exists>d. lr_date r = Some d \<and> max (115 - d) (d - 115) \<le> 15)"
    by (simp add: db_levelup_demo_def db0_def)
  have far: "\<not> levelup_exists db_levelup_demo (ll_char_id ?far) 116"
    by (simp add: levelup_exists_def db_levelup_demo_def db0_def)
  have run: "migrate_levelup db_levelup_demo 0 ?far = Inr (?after, 0)"
    by code_simp
  have skip: "migrate_levelup db_levelup_demo 0 ?near = Inr (db_levelup_demo, Suc 0)"
    using levelup_window_dedup[of ?near 115 db_levelup_demo 0] u1 near by blast
  have ins: "character_levelup ?after = character_levelup db_levelup_demo @
        [\<lparr>lr_id = character_levelup_id_seq db_levelup_demo + 1, lr_character_id = ll_char_id ?far,
          lr_level = ll_level ?far, lr_date = Some 116\<rparr>]"
    using levelup_window_dedup[of ?far 116 db_levelup_demo 0 ?after 0] u2 far run by blast
  show ?thesis
    using u1 u2 skip far run ins by simp
qed

subsection \<open>Death deduplication\<close>

lemma utcfromtimestamp_id: "utcfromtimestamp t = Inr t' \<Longrightarrow> t' = t"
  by (auto simp: utcfromtimestamp_def split: if_splits)

lemma migrate_death_unique:
  assumes "migrate_death conn n d = Inr (conn', n')" and "unique_deaths conn"
  shows "unique_deaths conn'"
  using assms(1)
proof (cases rule: migrate_death_cases)
  case (skipped t)
  with assms(2) show ?thesis by simp
next
  case (inserted t)
  with assms(2) show ?thesis
    by (auto simp: unique_deaths_def death_exists_def)
qed

lemma migrate_deaths_unique:
  "migrate_deaths conn n ds = Inr (conn', n') \<Longrightarrow> unique_deaths conn \<Longrightarrow> unique_deaths conn'"
proof (induction ds arbitrary: conn n)
  case Nil
  then show ?case by simp
next
  case (Cons d ds)
  from Cons.prems(1) obtain conn1 n1 where
    st: "migrate_death conn n d = Inr (conn1, n1)" and
    rest: "migrate_deaths conn1 n1 ds = Inr (conn', n')"
    by (auto split: sum.splits)
  from Cons.IH[OF rest migrate_death_unique[OF st Cons.prems(2)]] show ?case .
qed

lemma filter_key_once:
  "distinct (map f (filter P xs)) \<Longrightarrow> \<exists>x \<in> set xs. P x \<and> f x = k \<Longrightarrow>
   length (filter (\<lambda>r. P r \<and> f r = k) xs) = 1"
proof (induction xs)
  case Nil
  then show ?case by simp
next
  case (Cons a xs)
  show ?case
  proof (cases "P a \<and> f a = k")
    case True
    with Cons.prems(1) have "k \<notin> f ` set (filter P xs)" by auto
    then have "filter (\<lambda>r. P r \<and> f r = k) xs = []"
      by (auto simp: filter_empty_conv)
    with True show ?thesis by simp
  next
    case False
    with Cons.prems have "distinct (map f (filter P xs))" "\<exists>x \<in> set xs. P x \<and> f x = k"
      by (auto split: if_splits)
    from Cons.IH[OF this] False show ?thesis by auto
  qed
qed

lemma unique_death_once:
  assumes "unique_deaths conn" and "death_exists conn t cid"
  shows "length (filter (\<lambda>r. dr_character_id r = cid \<and> dr_date r = Some t)
                        (character_death conn)) = 1"
proof -
  have once: "length (filter (\<lambda>r. dr_date r \<noteq> None \<and> (dr_character_id r, dr_date r) = (cid, Some t))
                  (character_death conn)) = 1"
    using assms
    by (intro filter_key_once) (auto simp: unique_deaths_def death_exists_def)
  have same: "(\<lambda>r. dr_date r \<noteq> None \<and> (dr_character_id r, dr_date r) = (cid, Some t)) =
                 (\<lambda>r. dr_character_id r = cid \<and> dr_date r = Some t)"
    by auto
  show ?thesis using once by (simp only: same)
qed

lemma migrate_deaths_appends:
  "migrate_deaths conn n ds = Inr (conn', n') \<Longrightarrow> sorted (map ld_date ds) \<Longrightarrow>
   \<exists>news kills ts.
     character_death conn' = character_death conn @ news \<and>
     character_death_killer conn' = character_death_killer conn @ kills \<and>
     map kr_death_id kills = map dr_id news \<and>
     map dr_date news = map Some ts \<and> sorted ts \<and> set ts \<subseteq> ld_date ` set ds"
proof (induction ds arbitrary: conn n)
  case Nil
  then show ?case by simp
next
  case (Cons d ds)
  from Cons.prems(1) obtain conn1 n1 where
    st: "migrate_death conn n d = Inr (conn1, n1)" and
    rest: "migrate_deaths conn1 n1 ds = Inr (conn', n')"
    by (auto split: sum.splits)
  from Cons.prems(2) have srt: "sorted (map ld_date ds)" and le: "\<forall>x \<in> set ds. ld_date d \<le> ld_date x"
    by auto
  from Cons.IH[OF rest srt] obtain news kills ts where
    ih: "character_death conn' = character_death conn1 @ news"
        "character_death_killer conn' = character_death_killer conn1 @ kills"
        "map kr_death_id kills = map dr_id news"
        "map dr_date news = map Some ts" "sorted ts" "set ts \<subseteq> ld_date ` set ds"
    by blast
  from st show ?case
  proof (cases rule: migrate_death_cases)
    case (skipped t)
    with ih show ?thesis
      by (intro exI[of _ news] exI[of _ kills] exI[of _ ts]) auto
  next
    case (inserted t)
    let ?row = "\<lparr>dr_id = character_death_id_seq conn + 1, dr_character_id = ld_char_id d,
                  dr_level = ld_level d, dr_date = Some t\<rparr>"
    let ?kill = "\<lparr>kr_death_id = character_death_id_seq conn + 1, kr_position = 0,
                   kr_name = ld_killer d, kr_player = Some (ld_byplayer d = 1)\<rparr>"
    have t: "t = ld_date d" using utcfromtimestamp_id[OF inserted(1)] .
    have "sorted (t # ts)" using ih(5,6) le t by auto
    with ih inserted t show ?thesis
      by (intro exI[of _ "?row # news"] exI[of _ "?kill # kills"] exI[of _ "t # ts"]) auto
  qed
qed

lemma collect_deaths_mem:
  assumes "lc \<in> set rows" and "map_of ids (lc_name lc) = Some rid"
    and "x \<in> set (char_deaths c)" and "ld_char_id x = lc_id lc"
  shows "x\<lparr>ld_char_id := rid\<rparr> \<in> set (collect_deaths c ids rows)"
  using assms by (auto simp: collect_deaths_def select_deaths_def intro!: bexI[of _ lc])

lemma collect_levelups_mem:
  assumes "lc \<in> set rows" and "map_of ids (lc_name lc) = Some rid"
    and "x \<in> set (char_levelups c)" and "ll_char_id x = lc_id lc"
  shows "x\<lparr>ll_char_id := rid\<rparr> \<in> set (collect_levelups c ids rows)"
  using assms by (auto simp: collect_levelups_def select_levelups_def intro!: bexI[of _ lc])

lemma migrated_resolves:
  assumes "migrated conn c" and "lc \<in> set (chars c)"
  obtains rid where "select_character_id conn (Some (lc_name lc)) = Some rid"
    "map_of (name_ids conn) (lc_name lc) = Some rid"
proof -
  from assms have "lc_name lc \<in> fst ` set (name_ids conn)"
    by (simp add: migrated_def Let_def)
  then have "map_of (name_ids conn) (lc_name lc) \<noteq> None"
    by (simp add: map_of_eq_None_iff)
  then obtain rid where "map_of (name_ids conn) (lc_name lc) = Some rid" by auto
  with that show ?thesis by (simp add: select_character_id_map_of)
qed

lemma migrated_death:
  assumes "migrated conn c" and "lc \<in> set (chars c)"
    and "x \<in> set (char_deaths c)" and "ld_char_id x = lc_id lc"
    and "select_character_id conn (Some (lc_name lc)) = Some rid"
  shows "\<exists>t. utcfromtimestamp (ld_date x) = Inr t \<and> death_exists conn t rid"
proof -
  from assms(5) have m: "map_of (name_ids conn) (lc_name lc) = Some rid"
    by (simp add: select_character_id_map_of)
  from assms(2) have "lc \<in> set (sort_key lc_id (chars c))" by simp
  from collect_deaths_mem[OF this m assms(3,4)]
  have "x\<lparr>ld_char_id := rid\<rparr> \<in> set (collect_deaths c (name_ids conn) (sort_key lc_id (chars c)))" .
  with assms(1) have "case utcfromtimestamp (ld_date (x\<lparr>ld_char_id := rid\<rparr>)) of
              Inl e \<Rightarrow> False
            | Inr t \<Rightarrow> death_exists conn t (ld_char_id (x\<lparr>ld_char_id := rid\<rparr>))"
    unfolding migrated_def Let_def by blast
  then show ?thesis by (simp add: case_sum_False_iff)
qed

lemma migrated_levelup:
  assumes "migrated conn c" and "lc \<in> set (chars c)"
    and "x \<in> set (char_levelups c)" and "ll_char_id x = lc_id lc"
    and "select_character_id conn (Some (lc_name lc)) = Some rid"
  shows "\<exists>t. utcfromtimestamp (ll_date x) = Inr t \<and> levelup_exists conn rid t"
proof -
  from assms(5) have m: "map_of (name_ids conn) (lc_name lc) = Some rid"
    by (simp add: select_character_id_map_of)
  from assms(2) have "lc \<in> set (sort_key lc_id (chars c))" by simp
  from collect_levelups_mem[OF this m assms(3,4)]
  have "x\<lparr>ll_char_id := rid\<rparr> \<in> set (collect_levelups c (name_ids conn) (sort_key lc_id (chars c)))" .
  with assms(1) have "case utcfromtimestamp (ll_date (x\<lparr>ll_char_id := rid\<rparr>)) of
              Inl e \<Rightarrow> False
            | Inr t \<Rightarrow> levelup_exists conn (ll_char_id (x\<lparr>ll_char_id := rid\<rparr>)) t"
    unfolding migrated_def Let_def by blast
  then show ?thesis by (simp add: case_sum_False_iff)
qed

lemma death_exists_iff:
  "death_exists conn date char_id \<longleftrightarrow>
     (\<exists>r \<in> set (character_death conn). dr_character_id r = char_id \<and> dr_date r = Some date)"
  by (auto simp: death_exists_def)

lemma import_characters_deaths:
  assumes "import_characters ext conn c = Inr (conn', sd, sl)"
  shows "\<exists>news kills ts.
     character_death conn' = character_death conn @ news \<and>
     character_death_killer conn' = character_death_killer conn @ kills \<and>
     map kr_death_id kills = map dr_id news \<and>
     map dr_date news = map Some ts \<and> sorted ts"
    and "unique_deaths conn \<Longrightarrow> unique_deaths conn'"
proof -
  from assms obtain conn1 conn2 lus ds where
    1: "migrate_characters ext c conn [] [] (sort_key lc_id (chars c)) = Inr (conn1, lus, ds)" and
    2: "migrate_deaths conn1 0 (sort_key ld_date ds) = Inr (conn2, sd)" and
    3: "migrate_levelups conn2 0 (sort_key ll_date lus) = Inr (conn', sl)"
    by (rule import_characters_phases)
  note f1 = migrate_characters_frame[OF 1]
  note f3 = migrate_levelups_mono[OF 3]
  from migrate_deaths_appends[OF 2] obtain news kills ts where
    "character_death conn2 = character_death conn1 @ news"
    "character_death_killer conn2 = character_death_killer conn1 @ kills"
    "map kr_death_id kills = map dr_id news"
    "map dr_date news = map Some ts" "sorted ts"
    by auto
  with f1 f3 show "\<exists>news kills ts.
     character_death conn' = character_death conn @ news \<and>
     character_death_killer conn' = character_death_killer conn @ kills \<and>
     map kr_death_id kills = map dr_id news \<and>
     map dr_date news = map Some ts \<and> sorted ts"
    by auto
  show "unique_deaths conn'" if u: "unique_deaths conn"
  proof -
    from u f1 have "unique_deaths conn1" by (simp add: unique_deaths_def)
    from migrate_deaths_unique[OF 2 this] f3 show ?thesis by (simp add: unique_deaths_def)
  qed
qed

text \<open>
  Claim C5. A death whose timestamp converts is skipped and counted, the store
  unchanged, exactly when a stored death has the same character and the same date; a
  death that is not skipped and raises nothing appends one death row and one killer row
  that references it, at position 0, with the player flag true iff the legacy flag is 1.
  A complete \<open>import_characters\<close> appends its death rows in ascending date (the
  collected deaths are sorted before the loop), with one killer row per appended death;
  and when no two stored deaths share character and date before, none do after, and
  every legacy death of a legacy character has exactly one row with the identifier that
  character's name resolves to and its date, however many legacy deaths share them.
\<close>

theorem death_exact_dedup:
  "(utcfromtimestamp (ld_date d) = Inr date \<longrightarrow>
      (migrate_death conn n d = Inr (conn, Suc n)) =
      (\<exists>r \<in> set (character_death conn).
          dr_character_id r = ld_char_id d \<and> dr_date r = Some date)) \<and>
   (utcfromtimestamp (ld_date d) = Inr date \<and> \<not> death_exists conn date (ld_char_id d) \<and>
    migrate_death conn n d = Inr (conn', n') \<longrightarrow>
      n' = n \<and>
      character_death conn' = character_death conn @
        [\<lparr>dr_id = character_death_id_seq conn + 1, dr_character_id = ld_char_id d,
          dr_level = ld_level d, dr_date = Some date\<rparr>] \<and>
      character_death_killer conn' = character_death_killer conn @
        [\<lparr>kr_death_id = character_death_id_seq conn + 1, kr_position = 0,
          kr_name = ld_killer d, kr_player = Some (ld_byplayer d = 1)\<rparr>]) \<and>
   (import_characters ext conn0 c = Inr (conn1, sd, sl) \<longrightarrow>
      (\<exists>news kills ts.
         character_death conn1 = character_death conn0 @ news \<and>
         character_death_killer conn1 = character_death_killer conn0 @ kills \<and>
         map kr_death_id kills = map dr_id news \<and>
         map dr_date news = map Some ts \<and> sorted ts) \<and>
      (unique_deaths conn0 \<longrightarrow>
         unique_deaths conn1 \<and>
         (\<forall>lc \<in> set (chars c). \<forall>x \<in> set (char_deaths c). ld_char_id x = lc_id lc \<longrightarrow>
            (\<exists>rid t. select_character_id conn1 (Some (lc_name lc)) = Some rid \<and>
                utcfromtimestamp (ld_date x) = Inr t \<and>
                length (filter (\<lambda>r. dr_character_id r = rid \<and> dr_date r = Some t)
                               (character_death conn1)) = 1))))"
proof -
  have a: "(migrate_death conn n d = Inr (conn, Suc n)) =
      (\<exists>r \<in> set (character_death conn).
          dr_character_id r = ld_char_id d \<and> dr_date r = Some date)"
    if "utcfromtimestamp (ld_date d) = Inr date"
    using that
    by (auto simp: migrate_death_def insert_death_def insert_death_killer_def Let_def
                   death_exists_iff
             split: sum.splits if_splits)
  have b: "n' = n \<and>
      character_death conn' = character_death conn @
        [\<lparr>dr_id = character_death_id_seq conn + 1, dr_character_id = ld_char_id d,
          dr_level = ld_level d, dr_date = Some date\<rparr>] \<and>
      character_death_killer conn' = character_death_killer conn @
        [\<lparr>kr_death_id = character_death_id_seq conn + 1, kr_position = 0,
          kr_name = ld_killer d, kr_player = Some (ld_byplayer d = 1)\<rparr>]"
    if "utcfromtimestamp (ld_date d) = Inr date" "\<not> death_exists conn date (ld_char_id d)"
       "migrate_death conn n d = Inr (conn', n')"
    using that(3)
  proof (cases rule: migrate_death_cases)
    case (skipped t)
    with that show ?thesis by simp
  next
    case (inserted t)
    with that show ?thesis by simp
  qed
  have c: "(\<exists>news kills ts.
         character_death conn1 = character_death conn0 @ news \<and>
         character_death_killer conn1 = character_death_killer conn0 @ kills \<and>
         map kr_death_id kills = map dr_id news \<and>
         map dr_date news = map Some ts \<and> sorted ts) \<and>
      (unique_deaths conn0 \<longrightarrow>
         unique_deaths conn1 \<and>
         (\<forall>lc \<in> set (chars c). \<forall>x \<in> set (char_deaths c). ld_char_id x = lc_id lc \<longrightarrow>
            (\<exists>rid t. select_character_id conn1 (Some (lc_name lc)) = Some rid \<and>
                utcfromtimestamp (ld_date x) = Inr t \<and>
                length (filter (\<lambda>r. dr_character_id r = rid \<and> dr_date r = Some t)
                               (character_death conn1)) = 1)))"
    if run: "import_characters ext conn0 c = Inr (conn1, sd, sl)"
  proof -
    note mig = import_characters_migrated[OF run]
    have once: "\<exists>rid t. select_character_id conn1 (Some (lc_name lc)) = Some rid \<and>
                utcfromtimestamp (ld_date x) = Inr t \<and>
                length (filter (\<lambda>r. dr_character_id r = rid \<and> dr_date r = Some t)
                               (character_death conn1)) = 1"
      if u: "unique_deaths conn1" and lc: "lc \<in> set (chars c)"
        and x: "x \<in> set (char_deaths c)" "ld_char_id x = lc_id lc" for lc x
    proof -
      from mig lc obtain rid where
        rid: "select_character_id conn1 (Some (lc_name lc)) = Some rid"
        by (rule migrated_resolves)
      from migrated_death[OF mig lc x rid] obtain t where
        t: "utcfromtimestamp (ld_date x) = Inr t" "death_exists conn1 t rid" by blast
      from unique_death_once[OF u t(2)] rid t(1) show ?thesis by blast
    qed
    show ?thesis
      using import_characters_deaths[OF run] once by blast
  qed
  show ?thesis using a b c by blast
qed

lemma deaths_demo_run: "import_characters ext0 db0 legacy_deaths_demo = Inr (db_deaths_demo, 1, 0)"
  by code_simp

lemma deaths_demo_step:
  "migrate_death db_deaths_demo 0 (legacy_death0 101) = Inr (db_deaths_demo_next, 0)"
  by code_simp

theorem death_exact_dedup_witness:
  "utcfromtimestamp (ld_date (legacy_death0 100)) = Inr 100 \<and>
   migrate_death db_deaths_demo 0 (legacy_death0 100) = Inr (db_deaths_demo, 1) \<and>
   utcfromtimestamp (ld_date (legacy_death0 101)) = Inr 101 \<and>
   \<not> death_exists db_deaths_demo 101 (ld_char_id (legacy_death0 101)) \<and>
   migrate_death db_deaths_demo 0 (legacy_death0 101) = Inr (db_deaths_demo_next, 0) \<and>
   character_death_killer db_deaths_demo_next = character_death_killer db_deaths_demo @
     [\<lparr>kr_death_id = 3, kr_position = 0, kr_name = ''Bob'', kr_player = Some True\<rparr>] \<and>
   import_characters ext0 db0 legacy_deaths_demo = Inr (db_deaths_demo, 1, 0) \<and>
   unique_deaths db0 \<and> unique_deaths db_deaths_demo \<and>
   map ld_date (char_deaths legacy_deaths_demo) = [100, 100, 40] \<and>
   map dr_date (character_death db_deaths_demo) = [Some 40, Some 100] \<and>
   select_character_id db_deaths_demo (Some ''Alice'') = Some 1 \<and>
   length (filter (\<lambda>r. dr_character_id r = 1 \<and> dr_date r = Some 100)
                  (character_death db_deaths_demo)) = 1"
proof -
  let ?dup = "legacy_death0 100"
  let ?new = "legacy_death0 101"
  have u1: "utcfromtimestamp (ld_date ?dup) = Inr 100"
    by (simp add: utcfromtimestamp_def legacy_death0_def)
  have u2: "utcfromtimestamp (ld_date ?new) = Inr 101"
    by (simp add: utcfromtimestamp_def legacy_death0_def)
  have stored: "\<exists>r \<in> set (character_death db_deaths_demo).
          dr_character_id r = ld_char_id ?dup \<and> dr_date r = Some 100"
    by (simp add: db_deaths_demo_def db0_def legacy_death0_def)
  have fresh: "\<not> death_exists db_deaths_demo 101 (ld_char_id ?new)"
    by (simp add: death_exists_def db_deaths_demo_def db0_def legacy_death0_def)
  have skip: "migrate_death db_deaths_demo 0 ?dup = Inr (db_deaths_demo, Suc 0)"
    using death_exact_dedup[of ?dup 100 db_deaths_demo 0] u1 stored by blast
  have ins: "character_death_killer db_deaths_demo_next = character_death_killer db_deaths_demo @
        [\<lparr>kr_death_id = character_death_id_seq db_deaths_demo + 1, kr_position = 0,
          kr_name = ld_killer ?new, kr_player = Some (ld_byplayer ?new = 1)\<rparr>]"
    using death_exact_dedup[of ?new 101 db_deaths_demo 0 db_deaths_demo_next 0] u2 fresh
          deaths_demo_step by blast
  have uniq0: "unique_deaths db0"
    by (simp add: unique_deaths_def db0_def)
  have alice: "legacy_char0 1 ''Alice'' \<in> set (chars legacy_deaths_demo)"
    by (simp add: legacy_deaths_demo_def legacy0_def)
  have dup: "?dup\<lparr>ld_killer := ''dragon'', ld_byplayer := 0\<rparr> \<in> set (char_deaths legacy_deaths_demo)"
    "ld_char_id (?dup\<lparr>ld_killer := ''dragon'', ld_byplayer := 0\<rparr>) = lc_id (legacy_char0 1 ''Alice'')"
    "utcfromtimestamp (ld_date (?dup\<lparr>ld_killer := ''dragon'', ld_byplayer := 0\<rparr>)) = Inr 100"
    by (simp_all add: legacy_deaths_demo_def legacy0_def legacy_death0_def legacy_char0_def
                      utcfromtimestamp_def)
  have sel: "select_character_id db_deaths_demo (Some (lc_name (legacy_char0 1 ''Alice''))) = Some 1"
    by (simp add: select_character_id_def db_deaths_demo_def db0_def legacy_char0_def)
  from death_exact_dedup[of ?dup 100 db_deaths_demo 0 db_deaths_demo 0 ext0 db0
         legacy_deaths_demo db_deaths_demo 1 0] deaths_demo_run uniq0
  have glob: "unique_deaths db_deaths_demo \<and>
         (\<forall>lc \<in> set (chars legacy_deaths_demo). \<forall>x \<in> set (char_deaths legacy_deaths_demo).
            ld_char_id x = lc_id lc \<longrightarrow>
            (\<exists>rid t. select_character_id db_deaths_demo (Some (lc_name lc)) = Some rid \<and>
                utcfromtimestamp (ld_date x) = Inr t \<and>
                length (filter (\<lambda>r. dr_character_id r = rid \<and> dr_date r = Some t)
                               (character_death db_deaths_demo)) = 1))"
    by blast
  then have "\<exists>rid t. select_character_id db_deaths_demo (Some (lc_name (legacy_char0 1 ''Alice''))) = Some rid \<and>
                utcfromtimestamp (ld_date (?dup\<lparr>ld_killer := ''dragon'', ld_byplayer := 0\<rparr>)) = Inr t \<and>
                length (filter (\<lambda>r. dr_character_id r = rid \<and> dr_date r = Some t)
                               (character_death db_deaths_demo)) = 1"
    using alice dup(1,2) by blast
  then have one: "length (filter (\<lambda>r. dr_character_id r = 1 \<and> dr_date r = Some 100)
                               (character_death db_deaths_demo)) = 1"
    using sel dup(3) by auto
  have sel': "select_character_id db_deaths_demo (Some ''Alice'') = Some 1"
    using sel by (simp add: legacy_char0_def)
  have dates: "map ld_date (char_deaths legacy_deaths_demo) = [100, 100, 40]"
    "map dr_date (character_death db_deaths_demo) = [Some 40, Some 100]"
    by (simp_all add: legacy_deaths_demo_def legacy0_def db_deaths_demo_def db0_def)
  have ins': "character_death_killer db_deaths_demo_next = character_death_killer db_deaths_demo @
     [\<lparr>kr_death_id = 3, kr_position = 0, kr_name = ''Bob'', kr_player = Some True\<rparr>]"
    using ins by (simp add: legacy_death0_def db_deaths_demo_def db0_def)
  show ?thesis
    using u1 u2 skip fresh deaths_demo_step ins' deaths_demo_run uniq0 glob dates sel' one
    by simp
qed

subsection \<open>Failures\<close>

lemma migrate_characters_append:
  "migrate_characters ext c conn lus ds pre = Inr (conn1, lus1, ds1) \<Longrightarrow>
   migrate_characters ext c conn lus ds (pre @ rest) = migrate_characters ext c conn1 lus1 ds1 rest"
  by (induction pre arbitrary: conn lus ds) (auto split: sum.splits)

lemma migrate_deaths_append:
  "migrate_deaths conn n pre = Inr (conn1, n1) \<Longrightarrow>
   migrate_deaths conn n (pre @ rest) = migrate_deaths conn1 n1 rest"
  by (induction pre arbitrary: conn n) (auto split: sum.splits)

lemma migrate_levelups_append:
  "migrate_levelups conn n pre = Inr (conn1, n1) \<Longrightarrow>
   migrate_levelups conn n (pre @ rest) = migrate_levelups conn1 n1 rest"
  by (induction pre arbitrary: conn n) (auto split: sum.splits)

text \<open>
  Claim C9 as the code has it. There is no exception handler in \<open>import_characters\<close>:
  when the upsert of a character, the step of a death or the step of a level-up raises,
  \<open>import_characters\<close> ends with that exception and the store the failing statement
  left, whatever records follow. A duplicate is not an exception: a death whose
  character and date are stored, or a level-up within 15 seconds of a stored one of
  the same character, leaves the store as it is and adds one to the counter returned.
\<close>

theorem failed_insert_aborts_import:
  "(sort_key lc_id (chars c) = pre @ row # rest \<and>
    migrate_characters ext c conn [] [] pre = Inr (conn1, lus1, ds1) \<and>
    upsert_character ext conn1 row = Inl (e, conn2) \<longrightarrow>
      import_characters ext conn c = Inl (e, conn2)) \<and>
   (migrate_characters ext c conn [] [] (sort_key lc_id (chars c)) = Inr (conn1, lus, ds) \<and>
    sort_key ld_date ds = pre_d @ d # rest_d \<and>
    migrate_deaths conn1 0 pre_d = Inr (conn2, n) \<and>
    migrate_death conn2 n d = Inl (e, conn3) \<longrightarrow>
      import_characters ext conn c = Inl (e, conn3)) \<and>
   (migrate_characters ext c conn [] [] (sort_key lc_id (chars c)) = Inr (conn1, lus, ds) \<and>
    migrate_deaths conn1 0 (sort_key ld_date ds) = Inr (conn2, sd) \<and>
    sort_key ll_date lus = pre_l @ l # rest_l \<and>
    migrate_levelups conn2 0 pre_l = Inr (conn3, n) \<and>
    migrate_levelup conn3 n l = Inl (e, conn4) \<longrightarrow>
      import_characters ext conn c = Inl (e, conn4)) \<and>
   (utcfromtimestamp (ld_date d) = Inr t \<and> death_exists conn t (ld_char_id d) \<longrightarrow>
      migrate_death conn n d = Inr (conn, Suc n)) \<and>
   (utcfromtimestamp (ll_date l) = Inr t \<and> levelup_exists conn (ll_char_id l) t \<longrightarrow>
      migrate_levelup conn n l = Inr (conn, Suc n))"
proof -
  have a: "import_characters ext conn c = Inl (e, conn2)"
    if "sort_key lc_id (chars c) = pre @ row # rest"
       "migrate_characters ext c conn [] [] pre = Inr (conn1, lus1, ds1)"
       "upsert_character ext conn1 row = Inl (e, conn2)"
    using that migrate_characters_append[OF that(2), of "row # rest"]
    by (simp add: import_characters_def)
  have b: "import_characters ext conn c = Inl (e, conn3)"
    if "migrate_characters ext c conn [] [] (sort_key lc_id (chars c)) = Inr (conn1, lus, ds)"
       "sort_key ld_date ds = pre_d @ d # rest_d"
       "migrate_deaths conn1 0 pre_d = Inr (conn2, n)"
       "migrate_death conn2 n d = Inl (e, conn3)"
    using that migrate_deaths_append[OF that(3), of "d # rest_d"]
    by (simp add: import_characters_def)
  have c: "import_characters ext conn c = Inl (e, conn4)"
    if "migrate_characters ext c conn [] [] (sort_key lc_id (chars c)) = Inr (conn1, lus, ds)"
       "migrate_deaths conn1 0 (sort_key ld_date ds) = Inr (conn2, sd)"
       "sort_key ll_date lus = pre_l @ l # rest_l"
       "migrate_levelups conn2 0 pre_l = Inr (conn3, n)"
       "migrate_levelup conn3 n l = Inl (e, conn4)"
    using that migrate_levelups_append[OF that(4), of "l # rest_l"]
    by (simp add: import_characters_def)
  have d: "migrate_death conn n d = Inr (conn, Suc n)"
    if "utcfromtimestamp (ld_date d) = Inr t" "death_exists conn t (ld_char_id d)"
    using that by (simp add: migrate_death_def)
  have e: "migrate_levelup conn n l = Inr (conn, Suc n)"
    if "utcfromtimestamp (ll_date l) = Inr t" "levelup_exists conn (ll_char_id l) t"
    using that by (simp add: migrate_levelup_def)
  show ?thesis using a b c d e by blast
qed

text \<open>
  Claim C9 as stated fails: the first of two characters has a level outside
  \<open>smallint\<close>, the import ends with \<open>DataError\<close> in the store it started from, and the
  second character, which the upsert accepts, is not there.
\<close>

theorem failed_insert_continues_counterexample:
  "map lc_name (sort_key lc_id (chars legacy_failing_demo)) = [''Alice'', ''Bob''] \<and>
   upsert_character ext0 db0 (hd (sort_key lc_id (chars legacy_failing_demo))) =
     Inl (DataError, db0) \<and>
   import_characters ext0 db0 legacy_failing_demo = Inl (DataError, db0) \<and>
   character db0 = [] \<and>
   \<not> isl (upsert_character ext0 db0 (legacy_char0 2 ''Bob''))"
  by code_simp

theorem failed_insert_aborts_import_witness:
  "sort_key lc_id (chars legacy_failing_demo) =
     [] @ (legacy_char0 1 ''Alice'')\<lparr>lc_level := Some 40000\<rparr> # [legacy_char0 2 ''Bob''] \<and>
   migrate_characters ext0 legacy_failing_demo db0 [] [] [] = Inr (db0, [], []) \<and>
   upsert_character ext0 db0 ((legacy_char0 1 ''Alice'')\<lparr>lc_level := Some 40000\<rparr>) =
     Inl (DataError, db0) \<and>
   import_characters ext0 db0 legacy_failing_demo = Inl (DataError, db0) \<and>
   migrate_characters ext0 legacy_failing_death_demo db0 [] []
       (sort_key lc_id (chars legacy_failing_death_demo)) =
     Inr (db_alice, [], [(legacy_death0 100)\<lparr>ld_level := Some 40000\<rparr>, legacy_death0 200]) \<and>
   sort_key ld_date [(legacy_death0 100)\<lparr>ld_level := Some 40000\<rparr>, legacy_death0 200] =
     [] @ (legacy_death0 100)\<lparr>ld_level := Some 40000\<rparr> # [legacy_death0 200] \<and>
   migrate_deaths db_alice 0 [] = Inr (db_alice, 0) \<and>
   migrate_death db_alice 0 ((legacy_death0 100)\<lparr>ld_level := Some 40000\<rparr>) =
     Inl (DataError, db_alice) \<and>
   import_characters ext0 db0 legacy_failing_death_demo = Inl (DataError, db_alice) \<and>
   migrate_characters ext0 legacy_failing_levelup_demo db0 [] []
       (sort_key lc_id (chars legacy_failing_levelup_demo)) =
     Inr (db_alice, [legacy_levelup0 40000 100, legacy_levelup0 51 200], []) \<and>
   migrate_deaths db_alice 0 (sort_key ld_date []) = Inr (db_alice, 0) \<and>
   sort_key ll_date [legacy_levelup0 40000 100, legacy_levelup0 51 200] =
     [] @ legacy_levelup0 40000 100 # [legacy_levelup0 51 200] \<and>
   migrate_levelups db_alice 0 [] = Inr (db_alice, 0) \<and>
   migrate_levelup db_alice 0 (legacy_levelup0 40000 100) = Inl (DataError, db_alice) \<and>
   import_characters ext0 db0 legacy_failing_levelup_demo = Inl (DataError, db_alice) \<and>
   utcfromtimestamp (ld_date (legacy_death0 100)) = Inr 100 \<and>
   death_exists db_deaths_demo 100 (ld_char_id (legacy_death0 100)) \<and>
   migrate_death db_deaths_demo 7 (legacy_death0 100) = Inr (db_deaths_demo, 8) \<and>
   utcfromtimestamp (ll_date (legacy_levelup0 51 115)) = Inr 115 \<and>
   levelup_exists db_levelup_demo (ll_char_id (legacy_levelup0 51 115)) 115 \<and>
   migrate_levelup db_levelup_demo 7 (legacy_levelup0 51 115) = Inr (db_levelup_demo, 8)"
proof -
  let ?bad_char = "(legacy_char0 1 ''Alice'')\<lparr>lc_level := Some 40000\<rparr>"
  let ?bad_death = "(legacy_death0 100)\<lparr>ld_level := Some 40000\<rparr>"
  let ?bad_levelup = "legacy_levelup0 40000 100"
  have c1: "sort_key lc_id (chars legacy_failing_demo) = [] @ ?bad_char # [legacy_char0 2 ''Bob'']"
    by code_simp
  have c2: "migrate_characters ext0 legacy_failing_demo db0 [] [] [] = Inr (db0, [], [])"
    by simp
  have c3: "upsert_character ext0 db0 ?bad_char = Inl (DataError, db0)"
    by code_simp
  have c: "import_characters ext0 db0 legacy_failing_demo = Inl (DataError, db0)"
    using failed_insert_aborts_import[where c = legacy_failing_demo and pre = "[]"
            and row = ?bad_char and rest = "[legacy_char0 2 ''Bob'']" and ext = ext0
            and conn = db0 and ?conn1.0 = db0 and ?lus1.0 = "[]" and ?ds1.0 = "[]"
            and e = DataError and ?conn2.0 = db0] c1 c2 c3
    by blast
  have d1: "migrate_characters ext0 legacy_failing_death_demo db0 [] []
       (sort_key lc_id (chars legacy_failing_death_demo)) =
     Inr (db_alice, [], [?bad_death, legacy_death0 200])"
    by code_simp
  have d2: "sort_key ld_date [?bad_death, legacy_death0 200] =
     [] @ ?bad_death # [legacy_death0 200]"
    by code_simp
  have d3: "migrate_deaths db_alice 0 [] = Inr (db_alice, 0)"
    by simp
  have d4: "migrate_death db_alice 0 ?bad_death = Inl (DataError, db_alice)"
    by code_simp
  have d: "import_characters ext0 db0 legacy_failing_death_demo = Inl (DataError, db_alice)"
    using failed_insert_aborts_import[where c = legacy_failing_death_demo and ext = ext0
            and conn = db0 and ?conn1.0 = db_alice and lus = "[]"
            and ds = "[?bad_death, legacy_death0 200]" and pre_d = "[]" and d = ?bad_death
            and rest_d = "[legacy_death0 200]" and ?conn2.0 = db_alice and n = 0
            and e = DataError and ?conn3.0 = db_alice] d1 d2 d3 d4
    by blast
  have l1: "migrate_characters ext0 legacy_failing_levelup_demo db0 [] []
       (sort_key lc_id (chars legacy_failing_levelup_demo)) =
     Inr (db_alice, [?bad_levelup, legacy_levelup0 51 200], [])"
    by code_simp
  have l2: "migrate_deaths db_alice 0 (sort_key ld_date []) = Inr (db_alice, 0)"
    by simp
  have l3: "sort_key ll_date [?bad_levelup, legacy_levelup0 51 200] =
     [] @ ?bad_levelup # [legacy_levelup0 51 200]"
    by code_simp
  have l4: "migrate_levelups db_alice 0 [] = Inr (db_alice, 0)"
    by simp
  have l5: "migrate_levelup db_alice 0 ?bad_levelup = Inl (DataError, db_alice)"
    by code_simp
  have l: "import_characters ext0 db0 legacy_failing_levelup_demo = Inl (DataError, db_alice)"
    using failed_insert_aborts_import[where c = legacy_failing_levelup_demo and ext = ext0
            and conn = db0 and ?conn1.0 = db_alice and lus = "[?bad_levelup, legacy_levelup0 51 200]"
            and ds = "[]" and ?conn2.0 = db_alice and sd = 0 and pre_l = "[]" and l = ?bad_levelup
            and rest_l = "[legacy_levelup0 51 200]" and ?conn3.0 = db_alice and n = 0
            and e = DataError and ?conn4.0 = db_alice] l1 l2 l3 l4 l5
    by blast
  have x1: "utcfromtimestamp (ld_date (legacy_death0 100)) = Inr 100"
    by code_simp
  have x2: "death_exists db_deaths_demo 100 (ld_char_id (legacy_death0 100))"
    by code_simp
  have x: "migrate_death db_deaths_demo 7 (legacy_death0 100) = Inr (db_deaths_demo, 8)"
    using failed_insert_aborts_import[where d = "legacy_death0 100" and t = 100
            and conn = db_deaths_demo and n = 7] x1 x2
    by simp
  have y1: "utcfromtimestamp (ll_date (legacy_levelup0 51 115)) = Inr 115"
    by code_simp
  have y2: "levelup_exists db_levelup_demo (ll_char_id (legacy_levelup0 51 115)) 115"
    by code_simp
  have y: "migrate_levelup db_levelup_demo 7 (legacy_levelup0 51 115) = Inr (db_levelup_demo, 8)"
    using failed_insert_aborts_import[where l = "legacy_levelup0 51 115" and t = 115
            and conn = db_levelup_demo and n = 7] y1 y2
    by simp
  show ?thesis
    using c1 c2 c3 c d1 d2 d3 d4 d l1 l2 l3 l4 l5 l x1 x2 x y1 y2 y by blast
qed

subsection \<open>Rows that were there before\<close>

lemma preserved_refl: "preserved N xs xs"
  by (simp add: preserved_def)

lemma strip_name: "r\<lparr>ch_modified := None\<rparr> = r'\<lparr>ch_modified := None\<rparr> \<Longrightarrow> ch_name r = ch_name r'"
  by (metis character_row.select_convs(3) character_row.surjective character_row.update_convs(8))

lemma preserved_trans:
  assumes "preserved N xs ys" and "preserved M ys zs"
  shows "preserved (N \<union> M) xs zs"
  unfolding preserved_def
proof (intro conjI allI impI)
  show "length xs \<le> length zs" using assms by (simp add: preserved_def)
next
  fix i assume i: "i < length xs"
  with assms(1) have j: "i < length ys" by (simp add: preserved_def)
  from assms i j show "(zs ! i)\<lparr>ch_modified := None\<rparr> = (xs ! i)\<lparr>ch_modified := None\<rparr>"
    by (simp add: preserved_def)
next
  fix i assume i: "i < length xs" and n: "ch_name (xs ! i) \<notin> N \<union> M"
  with assms(1) have j: "i < length ys" by (simp add: preserved_def)
  from assms(1) i have "(ys ! i)\<lparr>ch_modified := None\<rparr> = (xs ! i)\<lparr>ch_modified := None\<rparr>"
    by (simp add: preserved_def)
  then have "ch_name (ys ! i) = ch_name (xs ! i)" by (rule strip_name)
  with assms i j n show "zs ! i = xs ! i"
    by (simp add: preserved_def)
qed

lemma upsert_character_preserved:
  assumes "upsert_character ext conn row = Inr (conn', cid)"
  shows "preserved {lc_name row} (character conn) (character conn')"
  using assms
proof (cases rule: upsert_character_cases)
  case (conflict old)
  then show ?thesis by (simp add: preserved_def)
next
  case fresh
  then show ?thesis by (simp add: preserved_def nth_append)
qed

lemma migrate_characters_preserved:
  "migrate_characters ext c conn lus ds rows = Inr (conn', lus', ds') \<Longrightarrow>
   preserved (lc_name ` set rows) (character conn) (character conn')"
proof (induction rows arbitrary: conn lus ds)
  case Nil
  then show ?case by (simp add: preserved_refl)
next
  case (Cons row rows)
  from Cons.prems(1) obtain conn1 cid where
    up: "upsert_character ext conn row = Inr (conn1, cid)" and
    rest: "migrate_characters ext c conn1 (lus @ select_levelups c cid (lc_id row))
             (ds @ select_deaths c cid (lc_id row)) rows = Inr (conn', lus', ds')"
    by (auto split: sum.splits)
  from preserved_trans[OF upsert_character_preserved[OF up] Cons.IH[OF rest]]
  show ?case by simp
qed

lemma import_characters_preserved:
  assumes "import_characters ext conn c = Inr (conn', sd, sl)"
  shows "preserved (lc_name ` set (chars c)) (character conn) (character conn')"
proof -
  from assms obtain conn1 conn2 lus ds where
    1: "migrate_characters ext c conn [] [] (sort_key lc_id (chars c)) = Inr (conn1, lus, ds)" and
    2: "migrate_deaths conn1 0 (sort_key ld_date ds) = Inr (conn2, sd)" and
    3: "migrate_levelups conn2 0 (sort_key ll_date lus) = Inr (conn', sl)"
    by (rule import_characters_phases)
  from migrate_deaths_mono[OF 2] migrate_levelups_mono[OF 3]
  have "character conn' = character conn1" by simp
  with migrate_characters_preserved[OF 1] show ?thesis by simp
qed

text \<open>
  Claim C3 as the code has it. On a name conflict the upsert returns the identifier of
  the row that has the name, adds no row, and leaves every row as it was up to
  \<open>modified\<close>; the conflict branch is an update, so \<open>update_character_modified\<close>
  sets \<open>modified\<close> of the row with that name to \<open>now()\<close>. Over a complete
  \<open>import_characters\<close> every row that was there keeps its place and all its fields
  except \<open>modified\<close>, and a row whose name no legacy character has is unchanged.
\<close>

theorem upsert_conflict_keeps_fields:
  "(find (\<lambda>r. ch_name r = lc_name row) (character conn) = Some old \<and>
    upsert_character ext conn row = Inr (conn1, cid) \<longrightarrow>
      cid = ch_id old \<and>
      length (character conn1) = length (character conn) \<and>
      strip_modified conn1 = strip_modified conn \<and>
      (\<forall>r \<in> set (character conn1).
          ch_name r = lc_name row \<longrightarrow> ch_modified r = Some (now_at ext (now_calls conn)))) \<and>
   (import_characters ext conn c = Inr (conn', sd, sl) \<longrightarrow>
      length (character conn) \<le> length (character conn') \<and>
      (\<forall>i < length (character conn).
          (character conn' ! i)\<lparr>ch_modified := None\<rparr> =
            (character conn ! i)\<lparr>ch_modified := None\<rparr> \<and>
          (ch_name (character conn ! i) \<notin> lc_name ` set (chars c) \<longrightarrow>
             character conn' ! i = character conn ! i)))"
proof -
  have a: "cid = ch_id old \<and>
      length (character conn1) = length (character conn) \<and>
      strip_modified conn1 = strip_modified conn \<and>
      (\<forall>r \<in> set (character conn1).
          ch_name r = lc_name row \<longrightarrow> ch_modified r = Some (now_at ext (now_calls conn)))"
    if "find (\<lambda>r. ch_name r = lc_name row) (character conn) = Some old"
       "upsert_character ext conn row = Inr (conn1, cid)"
    using that(2)
  proof (cases rule: upsert_character_cases)
    case (conflict old')
    with that(1) show ?thesis
      by (auto simp: strip_modified_def)
  next
    case fresh
    with that(1) show ?thesis by simp
  qed
  have b: "length (character conn) \<le> length (character conn') \<and>
      (\<forall>i < length (character conn).
          (character conn' ! i)\<lparr>ch_modified := None\<rparr> =
            (character conn ! i)\<lparr>ch_modified := None\<rparr> \<and>
          (ch_name (character conn ! i) \<notin> lc_name ` set (chars c) \<longrightarrow>
             character conn' ! i = character conn ! i))"
    if "import_characters ext conn c = Inr (conn', sd, sl)"
    using import_characters_preserved[OF that] by (simp add: preserved_def)
  show ?thesis using a b by blast
qed

text \<open>
  Claim C3 as stated fails for \<open>modified\<close>: a stored Alice was last modified at time
  5; importing a legacy Alice at time 1000 leaves her other fields and sets \<open>modified\<close>
  to 1000.
\<close>

theorem upsert_conflict_touches_modified_counterexample:
  "import_characters ext0 db_existing_demo legacy_alice_demo = Inr (db_existing_demo_after, 0, 0) \<and>
   map ch_name (character db_existing_demo) = [''Alice'', ''Zed''] \<and>
   map ch_modified (character db_existing_demo) = [Some 5, Some 6] \<and>
   map ch_modified (character db_existing_demo_after) = [Some 1000, Some 6]"
  by code_simp

lemma existing_demo_run:
  "import_characters ext0 db_existing_demo legacy_alice_demo = Inr (db_existing_demo_after, 0, 0)"
  by code_simp

lemma existing_demo_upsert:
  "upsert_character ext0 db_existing_demo (legacy_char0 1 ''Alice'') =
     Inr (db_existing_demo_after, 7)"
  by code_simp

lemma existing_demo_find:
  "find (\<lambda>r. ch_name r = lc_name (legacy_char0 1 ''Alice'')) (character db_existing_demo) =
     Some (hd (character db_existing_demo))"
  by (simp add: db_existing_demo_def db0_def legacy_char0_def)

theorem upsert_conflict_keeps_fields_witness:
  "find (\<lambda>r. ch_name r = lc_name (legacy_char0 1 ''Alice'')) (character db_existing_demo) =
     Some (hd (character db_existing_demo)) \<and>
   upsert_character ext0 db_existing_demo (legacy_char0 1 ''Alice'') =
     Inr (db_existing_demo_after, 7) \<and>
   ch_id (hd (character db_existing_demo)) = 7 \<and>
   length (character db_existing_demo_after) = 2 \<and>
   strip_modified db_existing_demo_after = strip_modified db_existing_demo \<and>
   ch_modified (hd (character db_existing_demo_after)) = Some (now_at ext0 0) \<and>
   import_characters ext0 db_existing_demo legacy_alice_demo =
     Inr (db_existing_demo_after, 0, 0) \<and>
   (character db_existing_demo_after ! 0)\<lparr>ch_modified := None\<rparr> =
     (character db_existing_demo ! 0)\<lparr>ch_modified := None\<rparr> \<and>
   ch_name (character db_existing_demo ! 1) \<notin> lc_name ` set (chars legacy_alice_demo) \<and>
   character db_existing_demo_after ! 1 = character db_existing_demo ! 1"
proof -
  note inst = upsert_conflict_keeps_fields[of "legacy_char0 1 ''Alice''" db_existing_demo
      "hd (character db_existing_demo)" ext0 db_existing_demo_after 7 legacy_alice_demo
      db_existing_demo_after 0 0]
  from inst existing_demo_find existing_demo_upsert have step:
    "7 = ch_id (hd (character db_existing_demo))"
    "length (character db_existing_demo_after) = length (character db_existing_demo)"
    "strip_modified db_existing_demo_after = strip_modified db_existing_demo"
    "\<forall>r \<in> set (character db_existing_demo_after).
        ch_name r = lc_name (legacy_char0 1 ''Alice'') \<longrightarrow>
        ch_modified r = Some (now_at ext0 (now_calls db_existing_demo))"
    by blast+
  from inst existing_demo_run have rows:
    "\<forall>i < length (character db_existing_demo).
          (character db_existing_demo_after ! i)\<lparr>ch_modified := None\<rparr> =
            (character db_existing_demo ! i)\<lparr>ch_modified := None\<rparr> \<and>
          (ch_name (character db_existing_demo ! i) \<notin> lc_name ` set (chars legacy_alice_demo) \<longrightarrow>
             character db_existing_demo_after ! i = character db_existing_demo ! i)"
    by blast
  have len: "length (character db_existing_demo) = 2"
    by (simp add: db_existing_demo_def db0_def)
  have zed: "ch_name (character db_existing_demo ! 1) \<notin> lc_name ` set (chars legacy_alice_demo)"
    by (simp add: db_existing_demo_def db0_def legacy_alice_demo_def legacy0_def legacy_char0_def)
  have hd_after: "hd (character db_existing_demo_after) \<in> set (character db_existing_demo_after)"
    "ch_name (hd (character db_existing_demo_after)) = lc_name (legacy_char0 1 ''Alice'')"
    "now_calls db_existing_demo = 0"
    by (simp_all add: db_existing_demo_after_def db_existing_demo_def db0_def legacy_char0_def)
  from step(4) hd_after have modified:
    "ch_modified (hd (character db_existing_demo_after)) = Some (now_at ext0 0)"
    by auto
  from rows len have r0: "(character db_existing_demo_after ! 0)\<lparr>ch_modified := None\<rparr> =
     (character db_existing_demo ! 0)\<lparr>ch_modified := None\<rparr>"
    by simp
  from rows len zed have r1: "character db_existing_demo_after ! 1 = character db_existing_demo ! 1"
    by simp
  show ?thesis
    using existing_demo_find existing_demo_upsert step(1-3) len modified existing_demo_run
          r0 zed r1
    by simp
qed

subsection \<open>One row per name\<close>

lemma upsert_character_distinct:
  assumes "upsert_character ext conn row = Inr (conn', cid)"
    and "distinct (map fst (name_ids conn))"
  shows "distinct (map fst (name_ids conn'))"
  using assms(2) by (auto simp: upsert_character_name_ids[OF assms(1)])

lemma migrate_characters_distinct:
  "migrate_characters ext c conn lus ds rows = Inr (conn', lus', ds') \<Longrightarrow>
   distinct (map fst (name_ids conn)) \<Longrightarrow> distinct (map fst (name_ids conn'))"
proof (induction rows arbitrary: conn lus ds)
  case Nil
  then show ?case by simp
next
  case (Cons row rows)
  from Cons.prems(1) obtain conn1 cid where
    up: "upsert_character ext conn row = Inr (conn1, cid)" and
    rest: "migrate_characters ext c conn1 (lus @ select_levelups c cid (lc_id row))
             (ds @ select_deaths c cid (lc_id row)) rows = Inr (conn', lus', ds')"
    by (auto split: sum.splits)
  from Cons.IH[OF rest upsert_character_distinct[OF up Cons.prems(2)]] show ?case .
qed

lemma import_characters_distinct:
  assumes "import_characters ext conn c = Inr (conn', sd, sl)"
    and "distinct (map ch_name (character conn))"
  shows "distinct (map ch_name (character conn'))"
proof -
  from assms(1) obtain conn1 conn2 lus ds where
    1: "migrate_characters ext c conn [] [] (sort_key lc_id (chars c)) = Inr (conn1, lus, ds)" and
    2: "migrate_deaths conn1 0 (sort_key ld_date ds) = Inr (conn2, sd)" and
    3: "migrate_levelups conn2 0 (sort_key ll_date lus) = Inr (conn', sl)"
    by (rule import_characters_phases)
  from migrate_deaths_mono[OF 2] migrate_levelups_mono[OF 3]
  have same: "character conn' = character conn1" by simp
  from assms(2) have "distinct (map fst (name_ids conn))"
    by (simp add: name_ids_def o_def)
  from migrate_characters_distinct[OF 1 this] same show ?thesis
    by (simp add: name_ids_def o_def)
qed

lemma find_filter_distinct:
  "distinct (map f xs) \<Longrightarrow> find (\<lambda>r. f r = k) xs = Some x \<Longrightarrow> filter (\<lambda>r. f r = k) xs = [x]"
proof (induction xs)
  case Nil
  then show ?case by simp
next
  case (Cons a xs)
  show ?case
  proof (cases "f a = k")
    case True
    with Cons.prems have "x = a" "k \<notin> f ` set xs" by auto
    then have "filter (\<lambda>r. f r = k) xs = []" by (auto simp: filter_empty_conv)
    with True \<open>x = a\<close> show ?thesis by simp
  next
    case False
    with Cons show ?thesis by simp
  qed
qed

lemma select_character_id_only_row:
  assumes "distinct (map ch_name (character conn))"
    and "select_character_id conn (Some n) = Some rid"
  shows "map ch_id (filter (\<lambda>r. ch_name r = n) (character conn)) = [rid]"
proof -
  from assms(2) obtain x where
    x: "find (\<lambda>r. ch_name r = n) (character conn) = Some x" "ch_id x = rid"
    by (auto simp: select_character_id_def)
  from find_filter_distinct[OF assms(1) x(1)] x(2) show ?thesis by simp
qed

subsection \<open>Participants\<close>

lemma left_join_chars_mem:
  "lc \<in> set (chars c) \<Longrightarrow> Some (lc_name lc) \<in> set (left_join_chars c (lc_id lc))"
proof -
  assume lc: "lc \<in> set (chars c)"
  then have mem: "lc \<in> set (filter (\<lambda>r. lc_id r = lc_id lc) (chars c))" by simp
  then show ?thesis
    by (cases "filter (\<lambda>r. lc_id r = lc_id lc) (chars c)")
       (auto simp: left_join_chars_def intro!: image_eqI[of _ _ lc])
qed

lemma select_event_participants_mem:
  assumes "lc \<in> set (chars c)" and "(le_id e, lc_id lc) \<in> set (event_participants c)"
  shows "(eid, Some (lc_name lc)) \<in> set (select_event_participants c eid (le_id e))"
  using assms left_join_chars_mem[OF assms(1)]
  by (force simp: select_event_participants_def)

lemma migrate_event_row:
  assumes "migrate_event ext conn row = Inr (conn', eid)"
  shows "\<exists>er. event conn' = event conn @ [er] \<and> ev_id er = eid \<and> ev_name er = le_name row \<and>
           ev_user_id er = le_creator row \<and> ev_reminder er = 4 - le_status row"
    and "character conn' = character conn"
    and "event_participant conn' = event_participant conn"
  using assms
  by (auto simp: migrate_event_def insert_event_def Let_def split: sum.splits if_splits)

lemma migrate_events_collects:
  "migrate_events ext c conn subs parts rows = Inr (conn', subs', parts') \<Longrightarrow>
   (\<exists>news. event conn' = event conn @ news \<and>
      (\<forall>e \<in> set rows. \<exists>er \<in> set news. ev_name er = le_name e \<and> ev_user_id er = le_creator e \<and>
          ev_reminder er = 4 - le_status e \<and>
          set (select_event_participants c (ev_id er) (le_id e)) \<subseteq> set parts')) \<and>
   set parts \<subseteq> set parts' \<and>
   character conn' = character conn \<and>
   event_participant conn' = event_participant conn"
proof (induction rows arbitrary: conn subs parts)
  case Nil
  then show ?case by simp
next
  case (Cons row rows)
  from Cons.prems obtain conn1 eid where
    st: "migrate_event ext conn row = Inr (conn1, eid)" and
    rest: "migrate_events ext c conn1 (subs @ select_event_subscribers c eid (le_id row))
             (parts @ select_event_participants c eid (le_id row)) rows = Inr (conn', subs', parts')"
    by (auto split: sum.splits)
  from migrate_event_row[OF st] obtain er where
    er: "event conn1 = event conn @ [er]" "ev_id er = eid" "ev_name er = le_name row"
        "ev_user_id er = le_creator row" "ev_reminder er = 4 - le_status row" and
    fr: "character conn1 = character conn" "event_participant conn1 = event_participant conn"
    by blast
  from Cons.IH[OF rest] obtain news where
    ih: "event conn' = event conn1 @ news"
        "\<forall>e \<in> set rows. \<exists>er \<in> set news. ev_name er = le_name e \<and> ev_user_id er = le_creator e \<and>
          ev_reminder er = 4 - le_status e \<and>
          set (select_event_participants c (ev_id er) (le_id e)) \<subseteq> set parts'"
        "set (parts @ select_event_participants c eid (le_id row)) \<subseteq> set parts'"
        "character conn' = character conn1" "event_participant conn' = event_participant conn1"
    by blast
  have "event conn' = event conn @ (er # news)" using ih(1) er(1) by simp
  moreover have "\<forall>e \<in> set (row # rows). \<exists>x \<in> set (er # news).
          ev_name x = le_name e \<and> ev_user_id x = le_creator e \<and>
          ev_reminder x = 4 - le_status e \<and>
          set (select_event_participants c (ev_id x) (le_id e)) \<subseteq> set parts'"
    using ih(2,3) er by auto
  moreover have "set parts \<subseteq> set parts'" using ih(3) by simp
  moreover have "character conn' = character conn"
    "event_participant conn' = event_participant conn"
    using ih(4,5) fr by simp_all
  ultimately show ?case by blast
qed

lemma insert_event_subscriber_frame:
  "insert_event_subscriber conn row = Inr conn' \<Longrightarrow>
   event conn' = event conn \<and> character conn' = character conn \<and>
   event_participant conn' = event_participant conn"
  by (auto simp: insert_event_subscriber_def split: if_splits prod.splits)

lemma migrate_event_participant_step:
  assumes "migrate_event_participant conn row = Inr conn'"
  shows "character conn' = character conn"
    and "event conn' = event conn"
    and "set (event_participant conn) \<subseteq> set (event_participant conn')"
    and "select_character_id conn (snd row) = Some cid \<Longrightarrow>
           (fst row, cid) \<in> set (event_participant conn')"
  using assms
  by (auto simp: migrate_event_participant_def insert_event_participant_def
           split: if_splits prod.splits option.splits)

lemma migrate_event_participants_all:
  "execute_each migrate_event_participant conn rows = Inr conn' \<Longrightarrow>
   character conn' = character conn \<and> event conn' = event conn \<and>
   set (event_participant conn) \<subseteq> set (event_participant conn') \<and>
   (\<forall>row \<in> set rows. \<forall>cid. select_character_id conn (snd row) = Some cid \<longrightarrow>
        (fst row, cid) \<in> set (event_participant conn'))"
proof (induction rows arbitrary: conn)
  case Nil
  then show ?case by simp
next
  case (Cons row rows)
  from Cons.prems obtain conn1 where
    st: "migrate_event_participant conn row = Inr conn1" and
    rest: "execute_each migrate_event_participant conn1 rows = Inr conn'"
    by (auto split: sum.splits)
  note s = migrate_event_participant_step[OF st]
  note ih = Cons.IH[OF rest]
  have sel: "select_character_id conn1 n = select_character_id conn n" for n
    using select_character_id_cong[OF s(1)] .
  show ?case
    using ih s(1,2,3) s(4) sel by (auto simp: subset_iff)
qed

lemma import_events_participants:
  assumes run: "import_events ext conn c = Inr conn'"
    and e: "e \<in> set (events c)" and lc: "lc \<in> set (chars c)"
    and p: "(le_id e, lc_id lc) \<in> set (event_participants c)"
    and rid: "select_character_id conn (Some (lc_name lc)) = Some rid"
  shows "\<exists>er \<in> set (drop (length (event conn)) (event conn')).
           ev_name er = le_name e \<and> ev_user_id er = le_creator e \<and>
           ev_reminder er = 4 - le_status e \<and>
           (ev_id er, rid) \<in> set (event_participant conn')"
proof -
  from run obtain conn1 subs parts conn2 where
    1: "migrate_events ext c conn [] [] (events c) = Inr (conn1, subs, parts)" and
    2: "execute_each insert_event_subscriber conn1 subs = Inr conn2" and
    3: "execute_each migrate_event_participant conn2 parts = Inr conn'"
    by (auto simp: import_events_def split: sum.splits)
  from migrate_events_collects[OF 1] e obtain news er where
    news: "event conn1 = event conn @ news" and
    er: "er \<in> set news" "ev_name er = le_name e" "ev_user_id er = le_creator e"
        "ev_reminder er = 4 - le_status e"
        "set (select_event_participants c (ev_id er) (le_id e)) \<subseteq> set parts" and
    ch1: "character conn1 = character conn"
    by blast
  have f2: "event conn2 = event conn1 \<and> character conn2 = character conn1"
    using execute_each_preserves[where f = "\<lambda>d. (event d, character d)"
            and stmt = insert_event_subscriber, OF _ 2]
          insert_event_subscriber_frame
    by auto
  note all = migrate_event_participants_all[OF 3]
  from select_event_participants_mem[OF lc p, of "ev_id er"] er(5)
  have mem: "(ev_id er, Some (lc_name lc)) \<in> set parts" by blast
  have "select_character_id conn2 (Some (lc_name lc)) = Some rid"
    using rid select_character_id_cong[of conn2 conn] f2 ch1 by simp
  with all mem have "(ev_id er, rid) \<in> set (event_participant conn')" by force
  moreover have "drop (length (event conn)) (event conn') = news"
    using all f2 news by simp
  ultimately show ?thesis using er(1-4) by auto
qed

lemma import_characters_event:
  assumes "import_characters ext conn c = Inr (conn', sd, sl)"
  shows "event conn' = event conn"
proof -
  from assms obtain conn1 conn2 lus ds where
    1: "migrate_characters ext c conn [] [] (sort_key lc_id (chars c)) = Inr (conn1, lus, ds)" and
    2: "migrate_deaths conn1 0 (sort_key ld_date ds) = Inr (conn2, sd)" and
    3: "migrate_levelups conn2 0 (sort_key ll_date lus) = Inr (conn', sl)"
    by (rule import_characters_phases)
  have d: "event b = event a" if "migrate_deaths a n xs = Inr (b, m)" for a b n m xs
    using that
  proof (induction xs arbitrary: a n)
    case Nil
    then show ?case by simp
  next
    case (Cons x xs)
    from Cons.prems obtain a1 n1 where
      st: "migrate_death a n x = Inr (a1, n1)" and rest: "migrate_deaths a1 n1 xs = Inr (b, m)"
      by (auto split: sum.splits)
    from st have "event a1 = event a" by (cases rule: migrate_death_cases) simp_all
    with Cons.IH[OF rest] show ?case by simp
  qed
  have l: "event b = event a" if "migrate_levelups a n xs = Inr (b, m)" for a b n m xs
    using that
  proof (induction xs arbitrary: a n)
    case Nil
    then show ?case by simp
  next
    case (Cons x xs)
    from Cons.prems obtain a1 n1 where
      st: "migrate_levelup a n x = Inr (a1, n1)" and rest: "migrate_levelups a1 n1 xs = Inr (b, m)"
      by (auto split: sum.splits)
    from st have "event a1 = event a" by (cases rule: migrate_levelup_cases) simp_all
    with Cons.IH[OF rest] show ?case by simp
  qed
  from migrate_characters_frame[OF 1] d[OF 2] l[OF 3] show ?thesis by simp
qed

lemma import_server_properties_event:
  "import_server_properties ext conn c = Inr conn' \<Longrightarrow> event conn' = event conn"
  unfolding import_server_properties_def
  by (rule migrate_server_properties_preserves[where f = event])
     (auto simp: migrate_server_property_def insert_server_prefixes_def insert_server_property_def
           split: sum.splits if_splits)

lemma import_roles_event:
  assumes "import_roles conn c = Inr conn'"
  shows "event conn' = event conn"
proof -
  from assms obtain conn1 where
    1: "execute_each insert_role_auto conn (auto_roles c) = Inr conn1" and
    2: "execute_each insert_role_joinable conn1 (joinable_roles c) = Inr conn'"
    by (auto simp: import_roles_def split: sum.splits)
  have "event conn1 = event conn"
    by (rule execute_each_preserves[where f = event, OF _ 1])
       (auto simp: insert_role_auto_def split: if_splits prod.splits)
  moreover have "event conn' = event conn1"
    by (rule execute_each_preserves[where f = event, OF _ 2])
       (auto simp: insert_role_joinable_def split: if_splits prod.splits)
  ultimately show ?thesis by simp
qed

subsection \<open>One row per name, and what is attributed to it\<close>

text \<open>
  Claim C2. When the names of the \<open>character\<close> table are distinct before (the
  \<open>UNIQUE(name)\<close> constraint), a complete \<open>import_legacy_db\<close> leaves, for every legacy
  character, exactly one row with its name, however many legacy characters share that
  name. With \<open>rid\<close> the identifier of that row: every legacy death of the character has
  a death row of \<open>rid\<close> with its date, every legacy level-up a level-up row of \<open>rid\<close>
  within 15 seconds of its date, and every participation of the character in a legacy
  event a participant row of \<open>rid\<close> in an event row the import created for that event.
\<close>

theorem shared_name_single_row:
  assumes run: "import_legacy_db ext conn c = Inr (conn', sd, sl)"
    and uniq: "distinct (map ch_name (character conn))"
    and lc: "lc \<in> set (chars c)"
  shows "\<exists>rid.
     map ch_id (filter (\<lambda>r. ch_name r = lc_name lc) (character conn')) = [rid] \<and>
     (\<forall>x \<in> set (char_deaths c). ld_char_id x = lc_id lc \<longrightarrow>
        (\<exists>r \<in> set (character_death conn').
            dr_character_id r = rid \<and> dr_date r = Some (ld_date x))) \<and>
     (\<forall>x \<in> set (char_levelups c). ll_char_id x = lc_id lc \<longrightarrow>
        (\<exists>r \<in> set (character_levelup conn'). lr_character_id r = rid \<and>
            (\<exists>d. lr_date r = Some d \<and> max (ll_date x - d) (d - ll_date x) \<le> 15))) \<and>
     (\<forall>e \<in> set (events c). (le_id e, lc_id lc) \<in> set (event_participants c) \<longrightarrow>
        (\<exists>er \<in> set (drop (length (event conn)) (event conn')).
            ev_name er = le_name e \<and> ev_user_id er = le_creator e \<and>
            (ev_id er, rid) \<in> set (event_participant conn')))"
proof -
  from run obtain conn1 conn2 conn3 where
    1: "import_characters ext conn c = Inr (conn1, sd, sl)" and
    2: "import_server_properties ext conn1 c = Inr conn2" and
    3: "import_roles conn2 c = Inr conn3" and
    4: "import_events ext conn3 c = Inr conn'"
    by (auto simp: import_legacy_db_def split: sum.splits)
  have t3: "character_tables conn3 = character_tables conn1"
    using import_server_properties_frame[OF 2] import_roles_frame[OF 3] by simp
  have t4: "character_tables conn' = character_tables conn1"
    using import_events_frame[OF 4] t3 by simp
  have ev3: "event conn3 = event conn"
    using import_characters_event[OF 1] import_server_properties_event[OF 2]
          import_roles_event[OF 3] by simp
  have mig: "migrated conn' c"
    using import_characters_migrated[OF 1] migrated_cong[OF t4] by simp
  have ch: "character conn' = character conn1" "character conn3 = character conn1"
    using t3 t4 by (simp_all add: character_tables_def)
  have dist: "distinct (map ch_name (character conn'))"
    using import_characters_distinct[OF 1 uniq] ch by simp
  from mig lc obtain rid where
    rid: "select_character_id conn' (Some (lc_name lc)) = Some rid"
    by (rule migrated_resolves)
  have rid3: "select_character_id conn3 (Some (lc_name lc)) = Some rid"
    using rid select_character_id_cong[of conn3 conn'] ch by simp
  have a: "map ch_id (filter (\<lambda>r. ch_name r = lc_name lc) (character conn')) = [rid]"
    using select_character_id_only_row[OF dist rid] .
  have b: "\<exists>r \<in> set (character_death conn').
            dr_character_id r = rid \<and> dr_date r = Some (ld_date x)"
    if "x \<in> set (char_deaths c)" "ld_char_id x = lc_id lc" for x
  proof -
    from migrated_death[OF mig lc that rid] obtain t where
      t: "utcfromtimestamp (ld_date x) = Inr t" "death_exists conn' t rid" by blast
    from utcfromtimestamp_id[OF t(1)] t(2) show ?thesis
      by (simp add: death_exists_iff)
  qed
  have c: "\<exists>r \<in> set (character_levelup conn'). lr_character_id r = rid \<and>
            (\<exists>d. lr_date r = Some d \<and> max (ll_date x - d) (d - ll_date x) \<le> 15)"
    if "x \<in> set (char_levelups c)" "ll_char_id x = lc_id lc" for x
  proof -
    from migrated_levelup[OF mig lc that rid] obtain t where
      t: "utcfromtimestamp (ll_date x) = Inr t" "levelup_exists conn' rid t" by blast
    from utcfromtimestamp_id[OF t(1)] t(2) show ?thesis
      by (simp add: levelup_exists_iff)
  qed
  have d: "\<exists>er \<in> set (drop (length (event conn)) (event conn')).
            ev_name er = le_name e \<and> ev_user_id er = le_creator e \<and>
            (ev_id er, rid) \<in> set (event_participant conn')"
    if "e \<in> set (events c)" "(le_id e, lc_id lc) \<in> set (event_participants c)" for e
    using import_events_participants[OF 4 that(1) lc that(2) rid3] ev3 by auto
  show ?thesis
  proof (intro exI[of _ rid] conjI ballI impI)
    show "map ch_id (filter (\<lambda>r. ch_name r = lc_name lc) (character conn')) = [rid]"
      by (rule a)
  next
    fix x assume "x \<in> set (char_deaths c)" "ld_char_id x = lc_id lc"
    then show "\<exists>r \<in> set (character_death conn').
            dr_character_id r = rid \<and> dr_date r = Some (ld_date x)"
      by (rule b)
  next
    fix x assume "x \<in> set (char_levelups c)" "ll_char_id x = lc_id lc"
    then show "\<exists>r \<in> set (character_levelup conn'). lr_character_id r = rid \<and>
            (\<exists>d. lr_date r = Some d \<and> max (ll_date x - d) (d - ll_date x) \<le> 15)"
      by (rule c)
  next
    fix e assume "e \<in> set (events c)" "(le_id e, lc_id lc) \<in> set (event_participants c)"
    then show "\<exists>er \<in> set (drop (length (event conn)) (event conn')).
            ev_name er = le_name e \<and> ev_user_id er = le_creator e \<and>
            (ev_id er, rid) \<in> set (event_participant conn')"
      by (rule d)
  qed
qed

theorem shared_name_single_row_witness:
  "import_legacy_db ext0 db0 legacy_demo = Inr (db_demo, 1, 1) \<and>
   distinct (map ch_name (character db0)) \<and>
   map lc_name (chars legacy_demo) = [''Alice'', ''Bob'', ''Alice''] \<and>
   legacy_char0 3 ''Alice'' \<in> set (chars legacy_demo) \<and>
   map ch_id (filter (\<lambda>r. ch_name r = ''Alice'') (character db_demo)) = [1] \<and>
   (\<exists>r \<in> set (character_death db_demo). dr_character_id r = 1 \<and> dr_date r = Some 100) \<and>
   (\<exists>r \<in> set (character_levelup db_demo). lr_character_id r = 1 \<and>
       (\<exists>d. lr_date r = Some d \<and> max (20 - d) (d - 20) \<le> 15)) \<and>
   (\<exists>er \<in> set (drop (length (event db0)) (event db_demo)).
       ev_name er = ''Raid'' \<and> ev_user_id er = 10 \<and>
       (ev_id er, 1) \<in> set (event_participant db_demo))"
proof -
  let ?lc = "legacy_char0 3 ''Alice''"
  let ?death = "\<lparr>ld_char_id = 3, ld_level = Some 50, ld_date = 100, ld_killer = ''Bob'',
                  ld_byplayer = 1\<rparr>"
  let ?levelup = "\<lparr>ll_char_id = 3, ll_level = Some 52, ll_date = 20\<rparr>"
  let ?event = "\<lparr>le_id = 5, le_creator = 10, le_name = ''Raid'', le_start = 500,
                  le_active = LInt 1, le_status = 1, le_description = None, le_server = 42,
                  le_joinable = LInt 1, le_slots = 0\<rparr>"
  have uniq: "distinct (map ch_name (character db0))"
    by (simp add: db0_def)
  have lc: "?lc \<in> set (chars legacy_demo)"
    by (simp add: legacy_demo_def)
  have names: "map lc_name (chars legacy_demo) = [''Alice'', ''Bob'', ''Alice'']"
    by (simp add: legacy_demo_def legacy_char0_def)
  have death: "?death \<in> set (char_deaths legacy_demo)" "ld_char_id ?death = lc_id ?lc"
    by (simp_all add: legacy_demo_def legacy_char0_def)
  have levelup: "?levelup \<in> set (char_levelups legacy_demo)" "ll_char_id ?levelup = lc_id ?lc"
    by (simp_all add: legacy_demo_def legacy_char0_def)
  have event: "?event \<in> set (events legacy_demo)"
    "(le_id ?event, lc_id ?lc) \<in> set (event_participants legacy_demo)"
    by (simp_all add: legacy_demo_def legacy_char0_def)
  have row: "map ch_id (filter (\<lambda>r. ch_name r = lc_name ?lc) (character db_demo)) = [1]"
    by (simp add: db_demo_def legacy_char0_def)
  from shared_name_single_row[OF demo_first_run uniq lc] obtain rid where
    big: "map ch_id (filter (\<lambda>r. ch_name r = lc_name ?lc) (character db_demo)) = [rid] \<and>
      (\<forall>x \<in> set (char_deaths legacy_demo). ld_char_id x = lc_id ?lc \<longrightarrow>
        (\<exists>r \<in> set (character_death db_demo).
            dr_character_id r = rid \<and> dr_date r = Some (ld_date x))) \<and>
      (\<forall>x \<in> set (char_levelups legacy_demo). ll_char_id x = lc_id ?lc \<longrightarrow>
        (\<exists>r \<in> set (character_levelup db_demo). lr_character_id r = rid \<and>
            (\<exists>d. lr_date r = Some d \<and> max (ll_date x - d) (d - ll_date x) \<le> 15))) \<and>
      (\<forall>e \<in> set (events legacy_demo).
        (le_id e, lc_id ?lc) \<in> set (event_participants legacy_demo) \<longrightarrow>
        (\<exists>er \<in> set (drop (length (event db0)) (event db_demo)).
            ev_name er = le_name e \<and> ev_user_id er = le_creator e \<and>
            (ev_id er, rid) \<in> set (event_participant db_demo)))" ..
  from big have r: "map ch_id (filter (\<lambda>r. ch_name r = lc_name ?lc) (character db_demo)) = [rid]"
    by (rule conjunct1)
  from big have d: "(\<forall>x \<in> set (char_deaths legacy_demo). ld_char_id x = lc_id ?lc \<longrightarrow>
        (\<exists>r \<in> set (character_death db_demo).
            dr_character_id r = rid \<and> dr_date r = Some (ld_date x)))"
    by (rule conjunct2[THEN conjunct1])
  from big have l: "(\<forall>x \<in> set (char_levelups legacy_demo). ll_char_id x = lc_id ?lc \<longrightarrow>
        (\<exists>r \<in> set (character_levelup db_demo). lr_character_id r = rid \<and>
            (\<exists>d. lr_date r = Some d \<and> max (ll_date x - d) (d - ll_date x) \<le> 15)))"
    by (rule conjunct2[THEN conjunct2, THEN conjunct1])
  from big have p: "(\<forall>e \<in> set (events legacy_demo).
        (le_id e, lc_id ?lc) \<in> set (event_participants legacy_demo) \<longrightarrow>
        (\<exists>er \<in> set (drop (length (event db0)) (event db_demo)).
            ev_name er = le_name e \<and> ev_user_id er = le_creator e \<and>
            (ev_id er, rid) \<in> set (event_participant db_demo)))"
    by (rule conjunct2[THEN conjunct2, THEN conjunct2])
  from r row have rid: "rid = 1" by simp
  from d death have d1: "\<exists>r \<in> set (character_death db_demo).
            dr_character_id r = rid \<and> dr_date r = Some (ld_date ?death)"
    by blast
  from l levelup have l1: "\<exists>r \<in> set (character_levelup db_demo). lr_character_id r = rid \<and>
            (\<exists>d. lr_date r = Some d \<and> max (ll_date ?levelup - d) (d - ll_date ?levelup) \<le> 15)"
    by blast
  from p event have p1: "\<exists>er \<in> set (drop (length (event db0)) (event db_demo)).
            ev_name er = le_name ?event \<and> ev_user_id er = le_creator ?event \<and>
            (ev_id er, rid) \<in> set (event_participant db_demo)"
    by blast
  have row': "map ch_id (filter (\<lambda>r. ch_name r = ''Alice'') (character db_demo)) = [1]"
    using row by (simp add: legacy_char0_def)
  show ?thesis
    using demo_first_run uniq names lc row' d1 l1 p1 unfolding rid by simp
qed

end
